theory Spec2Isabelle
  imports Complex_Main
begin

section \<open>The DCTrack client: data model\<close>

text \<open>
  The repository holds two generations of the client. The package at the module root
  (\<^verbatim>\<open>dctrack_client.go\<close>) is the one the development follows; the package in the
  directory \<^verbatim>\<open>dctrack/\<close> (its \<^verbatim>\<open>config.go\<close> and the file with
  \<^verbatim>\<open>mapDCTrackRecord\<close> beside it) differs in the envelope it decodes and in the mapper,
  and those two parts are embedded as well, under names that start with \<open>dctrack_\<close>.

  Functions of the Go standard library that the client calls are not part of the repository.
  The numeric and time conversions are parameters of the model, collected in a record
  \<open>golib\<close>; \<open>'f\<close> stands for \<^verbatim>\<open>float64\<close> and \<open>'t\<close> for \<^verbatim>\<open>time.Time\<close>.
\<close>

subsection \<open>Values held by a raw record\<close>

text \<open>
  A raw record is a \<^verbatim>\<open>map[string]interface{}\<close> filled by \<^verbatim>\<open>encoding/json\<close>: the
  dynamic values are \<^verbatim>\<open>nil\<close>, \<^verbatim>\<open>string\<close>, \<^verbatim>\<open>float64\<close>, \<^verbatim>\<open>bool\<close>,
  \<^verbatim>\<open>[]interface{}\<close> and \<^verbatim>\<open>map[string]interface{}\<close>.
\<close>

datatype 'f val =
    VNil
  | VString string
  | VFloat 'f
  | VBool bool
  | VSlice "'f val list"
  | VMap "(string \<times> 'f val) list"

type_synonym 'f raw_record = "string \<rightharpoonup> 'f val"

record ('f, 't) golib =
  json_float :: "string \<Rightarrow> 'f option"
    \<comment> \<open>the \<^verbatim>\<open>float64\<close> that the JSON decoder gives for a number literal, if it is in range\<close>
  json_int :: "string \<Rightarrow> int option"
    \<comment> \<open>the \<^verbatim>\<open>int\<close> that the JSON decoder gives for a number literal, if it is one\<close>
  fmt_float :: "'f \<Rightarrow> string"
    \<comment> \<open>\<^verbatim>\<open>fmt.Sprintf("%v", x)\<close> for a \<^verbatim>\<open>float64\<close>\<close>
  fmt_composite :: "'f val \<Rightarrow> string"
    \<comment> \<open>\<^verbatim>\<open>fmt.Sprintf("%v", x)\<close> for a slice or a map\<close>
  sscanf_f :: "string \<Rightarrow> 'f option"
    \<comment> \<open>\<^verbatim>\<open>fmt.Sscanf(str, "%f", &f)\<close>: the value stored when the error is nil\<close>
  sscanf_d :: "string \<Rightarrow> int option"
    \<comment> \<open>\<^verbatim>\<open>fmt.Sscanf(str, "%d", &i)\<close>: the value stored when the error is nil\<close>
  ParseFloat :: "string \<Rightarrow> 'f option"
    \<comment> \<open>\<^verbatim>\<open>strconv.ParseFloat(str, 64)\<close>\<close>
  Atoi :: "string \<Rightarrow> int option"
    \<comment> \<open>\<^verbatim>\<open>strconv.Atoi(str)\<close>\<close>
  time_Parse :: "string \<Rightarrow> string \<Rightarrow> 't option"
    \<comment> \<open>\<^verbatim>\<open>time.Parse(layout, value)\<close>\<close>
  time_Now :: "int \<Rightarrow> 't"
    \<comment> \<open>what \<^verbatim>\<open>time.Now()\<close> returns at an instant of the model's clock\<close>
  url_ok :: "string \<Rightarrow> string \<Rightarrow> bool"
    \<comment> \<open>whether \<^verbatim>\<open>http.NewRequestWithContext\<close> accepts the URL, given as its base and its query\<close>

definition Sprintf_v :: "('f, 't) golib \<Rightarrow> 'f val \<Rightarrow> string" where
  "Sprintf_v L v =
     (case v of
        VNil \<Rightarrow> ''<nil>''
      | VString s \<Rightarrow> s
      | VFloat x \<Rightarrow> fmt_float L x
      | VBool b \<Rightarrow> (if b then ''true'' else ''false'')
      | VSlice xs \<Rightarrow> fmt_composite L v
      | VMap kvs \<Rightarrow> fmt_composite L v)"

subsection \<open>Errors\<close>

text \<open>
  The client builds its errors with \<^verbatim>\<open>fmt.Errorf\<close>; each format string is a constructor
  here, and \<^verbatim>\<open>%w\<close> is an argument of type \<open>error\<close>. \<open>AllRetriesFailed None\<close> is the
  error that wraps a nil \<^verbatim>\<open>lastErr\<close>.
\<close>

datatype error =
    TransportError string           \<comment> \<open>an error returned by \<^verbatim>\<open>httpClient.Do\<close>\<close>
  | ContextCanceled                 \<comment> \<open>\<^verbatim>\<open>httpClient.Do\<close> on a context that is done\<close>
  | RequestFailedStatus int         \<comment> \<open>request failed with status N\<close>
  | AllRetriesFailed "error option" \<comment> \<open>all retry attempts failed, last error: E\<close>
  | ReadBodyError string            \<comment> \<open>error reading response body\<close>
  | DecodeError                     \<comment> \<open>error decoding response\<close>
  | LoginRequestFailed error        \<comment> \<open>login request failed: E\<close>
  | LoginFailedStatus int           \<comment> \<open>login failed with status N\<close>
  | NoAuthorizationHeader           \<comment> \<open>no Authorization header in login response\<close>
  | InvalidAuthorizationFormat      \<comment> \<open>invalid Authorization header format\<close>
  | AuthenticationFailed error      \<comment> \<open>authentication failed: E\<close>
  | MissingRequiredField string     \<comment> \<open>missing required field: K\<close>
  | CreateLoginRequestError         \<comment> \<open>error creating login request\<close>
  | CreateRequestError              \<comment> \<open>error creating request\<close>
  | InvalidConfiguration string     \<comment> \<open>invalid configuration: K is required\<close>

subsection \<open>Items\<close>

text \<open>
  \<^verbatim>\<open>DCTrackItem\<close>, the same struct in both packages, with all its fields. A pointer field
  is an option.
\<close>

record ('f, 't) DCTrackItem =
  ID :: "string"
  Name :: "string"
  ItemClass :: "string"
  Type :: "string"
  Status :: "string"
  Location :: "string"
  Cabinet :: "string"
  Rack :: "string"
  Position :: "string"
  Height :: "int"
  Make :: "string"
  Model :: "string"
  SerialNumber :: "string"
  OriginalPower :: "'f"
  PowerConsumption :: "'f"
  SystemAdminTeam :: "string"
  PrimaryContact :: "string"
  InstallDate :: "'t option"
  LastServiceDate :: "'t option"
  TiSubclass :: "string"
  TiSerialNumber :: "string"
  TiAssetTag :: "string"
  TiFormFactor :: "string"
  TiMounting :: "string"
  TiWidth :: "'f"
  TiDepth :: "'f"
  TiWeight :: "'f"
  TiRuHeight :: "string"
  TiPotentialPower :: "'f"
  TiEffectivePower :: "'f"
  TiPowerCapacity :: "'f"
  TiPsRedundancy :: "string"
  TiPurchasePrice :: "'f"
  TiContractAmount :: "'f"
  CmbPlantBay :: "string"
  CmbCabinetID :: "string"
  CmbRowPosition :: "string"
  CmbRowLabel :: "string"
  TiFloorNodeCode :: "string"
  TiFloorName :: "string"
  TiRoomNodeCode :: "string"
  TiRoomName :: "string"
  TiIntegrationStatus :: "string"
  TiVmwareIntegrationStatus :: "string"
  TiCmdbIntegrationStatus :: "string"
  TiItemBudgetStatus :: "string"
  ChkItemAutoPowerBudget :: "bool"
  ChkDerateAmps :: "bool"
  IPAddresses :: "string"
  IPAddressPortName :: "string"
  TifreeDataPortCount :: "int"
  TifreePowerPortCount :: "int"
  TiPxUsername :: "string"
  TiSnmpWriteCommString :: "string"
  TiUsers :: "int"
  TiRam :: "int"
  TiProcesses :: "int"
  TiCpuQuantity :: "int"
  TiCpuType :: "string"
  TiPartNumber :: "string"
  InstallationDate :: "'t option"
  ContractEndDate :: "'t option"
  PurchaseDate :: "'t option"
  TiPlannedDecommDate :: "'t option"
  TiCustomFieldPrimaryContact :: "string option"
  TiCustomFieldContactTeamName :: "string option"
  TiCustomFieldAuditRemarks :: "string option"
  TiCustomFieldAuditDate :: "'t option"
  TiCustomFieldAuditBy :: "string option"
  TiCustomFieldWarrantyExpirationDate :: "'t option"
  TiCustomFieldAssetStatus :: "string option"
  TiCustomFieldPntIt :: "string option"
  CmbSystemAdminTeam :: "string"
  CmbSystemAdmin :: "string"
  CmbCustomer :: "string"
  TiPoNumber :: "string"
  TiNotes :: "string"
  LastUpdatedAt :: "'t"
  CreatedAt :: "'t"
  UpdatedAt :: "'t"

section \<open>RecordMapper\<close>

subsection \<open>The coercion helpers of the root package\<close>

definition getString :: "('f, 't) golib \<Rightarrow> 'f raw_record \<Rightarrow> string \<Rightarrow> string" where
  "getString L rcd key =
     (case rcd key of
        Some v \<Rightarrow> (if v \<noteq> VNil then Sprintf_v L v else '''')
      | None \<Rightarrow> '''')"

definition getFloat :: "('f::zero, 't) golib \<Rightarrow> 'f raw_record \<Rightarrow> string \<Rightarrow> 'f" where
  "getFloat L rcd key =
     (case rcd key of
        Some v \<Rightarrow>
          (if v \<noteq> VNil then
             (let str = Sprintf_v L v in
              if str \<noteq> '''' \<and> str \<noteq> ''null'' then
                (case sscanf_f L str of Some f \<Rightarrow> f | None \<Rightarrow> 0)
              else 0)
           else 0)
      | None \<Rightarrow> 0)"

definition getInt :: "('f, 't) golib \<Rightarrow> 'f raw_record \<Rightarrow> string \<Rightarrow> int" where
  "getInt L rcd key =
     (case rcd key of
        Some v \<Rightarrow>
          (if v \<noteq> VNil then
             (let str = Sprintf_v L v in
              if str \<noteq> '''' \<and> str \<noteq> ''null'' then
                (case sscanf_d L str of Some i \<Rightarrow> i | None \<Rightarrow> 0)
              else 0)
           else 0)
      | None \<Rightarrow> 0)"

definition formats :: "string list" where
  "formats =
     [''2006-01-02 15:04:05-07'',
      ''2006-01-02T15:04:05Z'',
      ''2006-01-02'',
      ''2006-01-02T15:04:05Z07:00'']"

fun first_parse :: "('f, 't) golib \<Rightarrow> string list \<Rightarrow> string \<Rightarrow> 't option" where
  "first_parse L [] str = None"
| "first_parse L (format # rest) str =
     (case time_Parse L format str of
        Some t \<Rightarrow> Some t
      | None \<Rightarrow> first_parse L rest str)"

definition getTime :: "('f, 't) golib \<Rightarrow> 'f raw_record \<Rightarrow> string \<Rightarrow> 't option" where
  "getTime L rcd key =
     (case rcd key of
        Some v \<Rightarrow>
          (if v \<noteq> VNil then
             (let str = Sprintf_v L v in
              if str \<noteq> '''' \<and> str \<noteq> ''null'' then first_parse L formats str
              else None)
           else None)
      | None \<Rightarrow> None)"

subsection \<open>The coercion helpers that differ in the package \<^verbatim>\<open>dctrack/\<close>\<close>

definition dctrack_getFloat :: "('f::zero, 't) golib \<Rightarrow> 'f raw_record \<Rightarrow> string \<Rightarrow> 'f" where
  "dctrack_getFloat L rcd key =
     (case rcd key of
        Some v \<Rightarrow>
          (if v \<noteq> VNil then
             (let str = Sprintf_v L v in
              if str \<noteq> '''' \<and> str \<noteq> ''null'' then
                (case ParseFloat L str of Some f \<Rightarrow> f | None \<Rightarrow> 0)
              else 0)
           else 0)
      | None \<Rightarrow> 0)"

definition dctrack_getInt :: "('f, 't) golib \<Rightarrow> 'f raw_record \<Rightarrow> string \<Rightarrow> int" where
  "dctrack_getInt L rcd key =
     (case rcd key of
        Some v \<Rightarrow>
          (if v \<noteq> VNil then
             (let str = Sprintf_v L v in
              if str \<noteq> '''' \<and> str \<noteq> ''null'' then
                (case Atoi L str of Some i \<Rightarrow> i | None \<Rightarrow> 0)
              else 0)
           else 0)
      | None \<Rightarrow> 0)"

definition getBool :: "('f, 't) golib \<Rightarrow> 'f raw_record \<Rightarrow> string \<Rightarrow> bool" where
  "getBool L rcd key =
     (case rcd key of
        Some v \<Rightarrow>
          (if v \<noteq> VNil then
             (let str = Sprintf_v L v in
              if str = ''true'' \<or> str = ''1'' then True else False)
           else False)
      | None \<Rightarrow> False)"

definition nonEmpty :: "string \<Rightarrow> string option" where
  \<comment> \<open>\<^verbatim>\<open>if val := getString(k); val != "" { item.F = &val }\<close>\<close>
  "nonEmpty s = (if s \<noteq> '''' then Some s else None)"

subsection \<open>mapDCTrackRecord of the root package\<close>

text \<open>
  The function fills a zero item field by field, reads the clock for the timestamps, and
  then checks the five required fields in order. It returns the item also when it returns
  an error, as the Go function does. The fields it does not assign keep their zero values.
  The readings of \<^verbatim>\<open>time.Now()\<close> during one call are taken to be the one instant \<open>now\<close>.
\<close>

definition fill_item ::
  "('f::zero, 't) golib \<Rightarrow> 't \<Rightarrow> 'f raw_record \<Rightarrow> ('f, 't) DCTrackItem" where
  "fill_item L now rcd =
     \<lparr>
       ID = getString L rcd ''id'',
       Name = getString L rcd ''tiName'',
       ItemClass = getString L rcd ''tiClass'',
       Type = getString L rcd ''tiClass'',
       Status = getString L rcd ''cmbStatus'',
       Location = getString L rcd ''cmbLocation'',
       Cabinet = getString L rcd ''cmbCabinet'',
       Rack = getString L rcd ''cmbCabinet'',
       Position = getString L rcd ''cmbUPosition'',
       Height = getInt L rcd ''tiRUs'',
       Make = getString L rcd ''cmbMake'',
       Model = getString L rcd ''cmbModel'',
       SerialNumber = getString L rcd ''tiSerialNumber'',
       OriginalPower = getFloat L rcd ''tiItemOriginalPower'',
       PowerConsumption = getFloat L rcd ''tiEffectivePower'',
       SystemAdminTeam = getString L rcd ''cmbSystemAdminTeam'',
       PrimaryContact = getString L rcd ''tiCustomField_Primary Contact'',
       InstallDate = getTime L rcd ''installationDate'',
       LastServiceDate = getTime L rcd ''lastServiceDate'',
       TiSubclass = '''',
       TiSerialNumber = '''',
       TiAssetTag = '''',
       TiFormFactor = '''',
       TiMounting = '''',
       TiWidth = 0,
       TiDepth = 0,
       TiWeight = 0,
       TiRuHeight = '''',
       TiPotentialPower = 0,
       TiEffectivePower = 0,
       TiPowerCapacity = 0,
       TiPsRedundancy = '''',
       TiPurchasePrice = 0,
       TiContractAmount = 0,
       CmbPlantBay = '''',
       CmbCabinetID = '''',
       CmbRowPosition = '''',
       CmbRowLabel = '''',
       TiFloorNodeCode = '''',
       TiFloorName = '''',
       TiRoomNodeCode = '''',
       TiRoomName = '''',
       TiIntegrationStatus = '''',
       TiVmwareIntegrationStatus = '''',
       TiCmdbIntegrationStatus = '''',
       TiItemBudgetStatus = '''',
       ChkItemAutoPowerBudget = False,
       ChkDerateAmps = False,
       IPAddresses = '''',
       IPAddressPortName = '''',
       TifreeDataPortCount = 0,
       TifreePowerPortCount = 0,
       TiPxUsername = '''',
       TiSnmpWriteCommString = '''',
       TiUsers = 0,
       TiRam = 0,
       TiProcesses = 0,
       TiCpuQuantity = 0,
       TiCpuType = '''',
       TiPartNumber = '''',
       InstallationDate = None,
       ContractEndDate = None,
       PurchaseDate = None,
       TiPlannedDecommDate = None,
       TiCustomFieldPrimaryContact = None,
       TiCustomFieldContactTeamName = None,
       TiCustomFieldAuditRemarks = None,
       TiCustomFieldAuditDate = None,
       TiCustomFieldAuditBy = None,
       TiCustomFieldWarrantyExpirationDate = None,
       TiCustomFieldAssetStatus = None,
       TiCustomFieldPntIt = None,
       CmbSystemAdminTeam = '''',
       CmbSystemAdmin = '''',
       CmbCustomer = '''',
       TiPoNumber = '''',
       TiNotes = '''',
       LastUpdatedAt = (case getTime L rcd ''lastUpdatedOn'' of Some lastUpdated \<Rightarrow> lastUpdated | None \<Rightarrow> now),
       CreatedAt = now,
       UpdatedAt = now
     \<rparr>"

definition validate_item :: "('f, 't) DCTrackItem \<Rightarrow> error option" where
  "validate_item item =
     (if ID item = '''' then Some (MissingRequiredField ''id'')
      else if Name item = '''' then Some (MissingRequiredField ''tiName'')
      else if ItemClass item = '''' then Some (MissingRequiredField ''tiClass'')
      else if Status item = '''' then Some (MissingRequiredField ''cmbStatus'')
      else if Location item = '''' then Some (MissingRequiredField ''cmbLocation'')
      else None)"

definition mapDCTrackRecord ::
  "('f::zero, 't) golib \<Rightarrow> 't \<Rightarrow> 'f raw_record \<Rightarrow> ('f, 't) DCTrackItem \<times> error option" where
  "mapDCTrackRecord L now rcd = (let item = fill_item L now rcd in (item, validate_item item))"

subsection \<open>mapDCTrackRecord of the package \<^verbatim>\<open>dctrack/\<close>\<close>

text \<open>This mapper fills every field and has no validation: its only return is \<^verbatim>\<open>item, nil\<close>.\<close>

definition dctrack_mapDCTrackRecord ::
  "('f::zero, 't) golib \<Rightarrow> 't \<Rightarrow> 'f raw_record \<Rightarrow> ('f, 't) DCTrackItem \<times> error option" where
  "dctrack_mapDCTrackRecord L now rcd =
     (\<lparr>
       ID = getString L rcd ''id'',
       Name = getString L rcd ''tiName'',
       ItemClass = getString L rcd ''tiClass'',
       Type = getString L rcd ''tiClass'',
       Status = getString L rcd ''cmbStatus'',
       Location = getString L rcd ''cmbLocation'',
       Cabinet = getString L rcd ''cmbCabinet'',
       Rack = getString L rcd ''cmbCabinet'',
       Position = getString L rcd ''cmbPosition'',
       Height = dctrack_getInt L rcd ''tiRUs'',
       Make = getString L rcd ''cmbMake'',
       Model = getString L rcd ''cmbModel'',
       SerialNumber = getString L rcd ''tiSerialNumber'',
       OriginalPower = dctrack_getFloat L rcd ''tiItemOriginalPower'',
       PowerConsumption = dctrack_getFloat L rcd ''tiEffectivePower'',
       SystemAdminTeam = getString L rcd ''cmbSystemAdminTeam'',
       PrimaryContact = getString L rcd ''tiCustomField_Primary Contact'',
       InstallDate = getTime L rcd ''installationDate'',
       LastServiceDate = getTime L rcd ''lastServiceDate'',
       TiSubclass = getString L rcd ''tiSubclass'',
       TiSerialNumber = getString L rcd ''tiSerialNumber'',
       TiAssetTag = getString L rcd ''tiAssetTag'',
       TiFormFactor = getString L rcd ''tiFormFactor'',
       TiMounting = getString L rcd ''tiMounting'',
       TiWidth = dctrack_getFloat L rcd ''tiWidth'',
       TiDepth = dctrack_getFloat L rcd ''tiDepth'',
       TiWeight = dctrack_getFloat L rcd ''tiWeight'',
       TiRuHeight = getString L rcd ''tiRUs'',
       TiPotentialPower = dctrack_getFloat L rcd ''tiPotentialPower'',
       TiEffectivePower = dctrack_getFloat L rcd ''tiEffectivePower'',
       TiPowerCapacity = dctrack_getFloat L rcd ''tiPowerCapacity'',
       TiPsRedundancy = getString L rcd ''tiPSRedundancy'',
       TiPurchasePrice = dctrack_getFloat L rcd ''tiPurchasePrice'',
       TiContractAmount = dctrack_getFloat L rcd ''tiContractAmount'',
       CmbPlantBay = getString L rcd ''cmbPlantBay'',
       CmbCabinetID = getString L rcd ''cmbCabinetId'',
       CmbRowPosition = getString L rcd ''cmbRowPosition'',
       CmbRowLabel = getString L rcd ''cmbRowLabel'',
       TiFloorNodeCode = getString L rcd ''tiFloorNodeCode'',
       TiFloorName = getString L rcd ''tiFloorName'',
       TiRoomNodeCode = getString L rcd ''tiRoomNodeCode'',
       TiRoomName = getString L rcd ''tiRoomName'',
       TiIntegrationStatus = getString L rcd ''tiIntegrationStatus'',
       TiVmwareIntegrationStatus = getString L rcd ''tiVMwareIntegrationStatus'',
       TiCmdbIntegrationStatus = getString L rcd ''tiCmdbIntegrationStatus'',
       TiItemBudgetStatus = getString L rcd ''tiItemBudgetStatus'',
       ChkItemAutoPowerBudget = getBool L rcd ''chkItemAutoPowerBudget'',
       ChkDerateAmps = getBool L rcd ''chkDerateAmps'',
       IPAddresses = getString L rcd ''ipAddresses'',
       IPAddressPortName = getString L rcd ''ipAddressPortName'',
       TifreeDataPortCount = dctrack_getInt L rcd ''tifreeDataPortCount'',
       TifreePowerPortCount = dctrack_getInt L rcd ''tifreePowerPortCount'',
       TiPxUsername = getString L rcd ''tiPXUsername'',
       TiSnmpWriteCommString = getString L rcd ''tiSnmpWriteCommString'',
       TiUsers = dctrack_getInt L rcd ''tiUsers'',
       TiRam = dctrack_getInt L rcd ''tiRAM'',
       TiProcesses = dctrack_getInt L rcd ''tiProcesses'',
       TiCpuQuantity = dctrack_getInt L rcd ''tiCpuQuantity'',
       TiCpuType = getString L rcd ''tiCpuType'',
       TiPartNumber = getString L rcd ''tiPartNumber'',
       InstallationDate = getTime L rcd ''installationDate'',
       ContractEndDate = getTime L rcd ''contractEndDate'',
       PurchaseDate = getTime L rcd ''purchaseDate'',
       TiPlannedDecommDate = getTime L rcd ''tiPlannedDecommDate'',
       TiCustomFieldPrimaryContact = nonEmpty (getString L rcd ''tiCustomField_Primary Contact''),
       TiCustomFieldContactTeamName = nonEmpty (getString L rcd ''tiCustomField_Contact Team Name''),
       TiCustomFieldAuditRemarks = nonEmpty (getString L rcd ''tiCustomField_Audit Remarks''),
       TiCustomFieldAuditDate = getTime L rcd ''tiCustomField_Audit Date'',
       TiCustomFieldAuditBy = nonEmpty (getString L rcd ''tiCustomField_Audit By''),
       TiCustomFieldWarrantyExpirationDate = getTime L rcd ''tiCustomField_Warranty Expiration Date'',
       TiCustomFieldAssetStatus = nonEmpty (getString L rcd ''tiCustomField_Asset Status''),
       TiCustomFieldPntIt = nonEmpty (getString L rcd ''tiCustomField_PNT/IT''),
       CmbSystemAdminTeam = getString L rcd ''cmbSystemAdminTeam'',
       CmbSystemAdmin = getString L rcd ''cmbSystemAdmin'',
       CmbCustomer = getString L rcd ''cmbCustomer'',
       TiPoNumber = getString L rcd ''tiPONumber'',
       TiNotes = getString L rcd ''tiNotes'',
       LastUpdatedAt = (case getTime L rcd ''lastUpdatedOn'' of Some lastUpdated \<Rightarrow> lastUpdated | None \<Rightarrow> now),
       CreatedAt = now,
       UpdatedAt = now
     \<rparr>, None)"

section \<open>The page envelope\<close>

text \<open>
  A response body that is syntactically JSON is a \<open>json\<close> document; number literals are
  kept as text, since the decoder converts them according to the Go type they are stored in.
  \<^verbatim>\<open>json.Unmarshal\<close> is library code; the model follows its documented behaviour:
  a key of the document matches a struct field when the two are equal up to case (ASCII
  folding here), unknown keys are skipped, \<^verbatim>\<open>null\<close> leaves the target as it is, keys are
  taken in document order so that a later one overrides an earlier one, and a JSON value of
  the wrong kind for its target makes \<^verbatim>\<open>Unmarshal\<close> return an error (\<open>None\<close> here).
  A body that is the literal \<^verbatim>\<open>null\<close> decodes to the zero envelope.
\<close>

datatype json =
    JNull
  | JBool bool
  | JNumber string
  | JString string
  | JArray "json list"
  | JObject "(string \<times> json) list"

fun to_val :: "('f, 't) golib \<Rightarrow> json \<Rightarrow> 'f val option"
  and to_vals :: "('f, 't) golib \<Rightarrow> json list \<Rightarrow> 'f val list option"
  and to_fields :: "('f, 't) golib \<Rightarrow> (string \<times> json) list \<Rightarrow> (string \<times> 'f val) list option"
where
  "to_val L JNull = Some VNil"
| "to_val L (JBool b) = Some (VBool b)"
| "to_val L (JNumber lit) = map_option VFloat (json_float L lit)"
| "to_val L (JString s) = Some (VString s)"
| "to_val L (JArray xs) = map_option VSlice (to_vals L xs)"
| "to_val L (JObject kvs) = map_option VMap (to_fields L kvs)"
| "to_vals L [] = Some []"
| "to_vals L (x # xs) =
     (case to_val L x of
        None \<Rightarrow> None
      | Some v \<Rightarrow> (case to_vals L xs of None \<Rightarrow> None | Some vs \<Rightarrow> Some (v # vs)))"
| "to_fields L [] = Some []"
| "to_fields L (kx # kvs) =
     (case to_val L (snd kx) of
        None \<Rightarrow> None
      | Some v \<Rightarrow> (case to_fields L kvs of None \<Rightarrow> None | Some fs \<Rightarrow> Some ((fst kx, v) # fs)))"

definition to_lower :: "char \<Rightarrow> char" where
  "to_lower c =
     (case map_of (zip ''ABCDEFGHIJKLMNOPQRSTUVWXYZ'' ''abcdefghijklmnopqrstuvwxyz'') c of
        Some l \<Rightarrow> l
      | None \<Rightarrow> c)"

definition equal_fold :: "string \<Rightarrow> string \<Rightarrow> bool" where
  "equal_fold a b = (map to_lower a = map to_lower b)"

definition decode_record :: "('f, 't) golib \<Rightarrow> json \<Rightarrow> 'f raw_record option" where
  \<comment> \<open>one element of the array, stored in a \<^verbatim>\<open>map[string]interface{}\<close>\<close>
  "decode_record L j =
     (case j of
        JNull \<Rightarrow> Some Map.empty
      | JObject kvs \<Rightarrow> map_option (\<lambda>fs. map_of (rev fs)) (to_fields L kvs)
      | _ \<Rightarrow> None)"

fun decode_records :: "('f, 't) golib \<Rightarrow> json list \<Rightarrow> 'f raw_record list option" where
  "decode_records L [] = Some []"
| "decode_records L (x # xs) =
     (case decode_record L x of
        None \<Rightarrow> None
      | Some r \<Rightarrow> (case decode_records L xs of None \<Rightarrow> None | Some rs \<Rightarrow> Some (r # rs)))"

definition decode_slice :: "('f, 't) golib \<Rightarrow> json \<Rightarrow> 'f raw_record list option" where
  \<comment> \<open>a value stored in a \<^verbatim>\<open>[]map[string]interface{}\<close>; \<^verbatim>\<open>null\<close> makes the slice nil\<close>
  "decode_slice L j =
     (case j of
        JNull \<Rightarrow> Some []
      | JArray xs \<Rightarrow> decode_records L xs
      | _ \<Rightarrow> None)"

definition decode_int :: "('f, 't) golib \<Rightarrow> int \<Rightarrow> json \<Rightarrow> int option" where
  \<comment> \<open>a value stored in an \<^verbatim>\<open>int\<close> that holds \<open>cur\<close>\<close>
  "decode_int L cur j =
     (case j of
        JNull \<Rightarrow> Some cur
      | JNumber lit \<Rightarrow> json_int L lit
      | _ \<Rightarrow> None)"

subsection \<open>DCTrackResponse of the root package\<close>

record 'f DCTrackResponse =
  TotalRows :: int
  PageNumber_r :: int
  PageSize_r :: int
  SearchResults_Items :: "'f raw_record list"

fun decode_SearchResults_fields ::
  "('f, 't) golib \<Rightarrow> (string \<times> json) list \<Rightarrow> 'f raw_record list \<Rightarrow> 'f raw_record list option" where
  "decode_SearchResults_fields L [] cur = Some cur"
| "decode_SearchResults_fields L (kx # kvs) cur =
     (if equal_fold (fst kx) ''items'' then
        (case decode_slice L (snd kx) of
           None \<Rightarrow> None
         | Some items \<Rightarrow> decode_SearchResults_fields L kvs items)
      else decode_SearchResults_fields L kvs cur)"

definition decode_SearchResults ::
  "('f, 't) golib \<Rightarrow> 'f raw_record list \<Rightarrow> json \<Rightarrow> 'f raw_record list option" where
  "decode_SearchResults L cur j =
     (case j of
        JNull \<Rightarrow> Some cur
      | JObject kvs \<Rightarrow> decode_SearchResults_fields L kvs cur
      | _ \<Rightarrow> None)"

fun decode_DCTrackResponse_fields ::
  "('f, 't) golib \<Rightarrow> (string \<times> json) list \<Rightarrow> 'f DCTrackResponse \<Rightarrow> 'f DCTrackResponse option" where
  "decode_DCTrackResponse_fields L [] resp = Some resp"
| "decode_DCTrackResponse_fields L (kx # kvs) resp =
     (if equal_fold (fst kx) ''totalRows'' then
        (case decode_int L (TotalRows resp) (snd kx) of
           None \<Rightarrow> None
         | Some n \<Rightarrow> decode_DCTrackResponse_fields L kvs (resp\<lparr>TotalRows := n\<rparr>))
      else if equal_fold (fst kx) ''pageNumber'' then
        (case decode_int L (PageNumber_r resp) (snd kx) of
           None \<Rightarrow> None
         | Some n \<Rightarrow> decode_DCTrackResponse_fields L kvs (resp\<lparr>PageNumber_r := n\<rparr>))
      else if equal_fold (fst kx) ''pageSize'' then
        (case decode_int L (PageSize_r resp) (snd kx) of
           None \<Rightarrow> None
         | Some n \<Rightarrow> decode_DCTrackResponse_fields L kvs (resp\<lparr>PageSize_r := n\<rparr>))
      else if equal_fold (fst kx) ''searchResults'' then
        (case decode_SearchResults L (SearchResults_Items resp) (snd kx) of
           None \<Rightarrow> None
         | Some items \<Rightarrow> decode_DCTrackResponse_fields L kvs (resp\<lparr>SearchResults_Items := items\<rparr>))
      else decode_DCTrackResponse_fields L kvs resp)"

definition Unmarshal :: "('f, 't) golib \<Rightarrow> json \<Rightarrow> 'f DCTrackResponse option" where
  \<comment> \<open>\<^verbatim>\<open>json.Unmarshal(bodyBytes, &dctrackResp)\<close> on a zero \<^verbatim>\<open>DCTrackResponse\<close>\<close>
  "Unmarshal L j =
     (let zero = \<lparr>TotalRows = 0, PageNumber_r = 0, PageSize_r = 0, SearchResults_Items = []\<rparr> in
      case j of
        JNull \<Rightarrow> Some zero
      | JObject kvs \<Rightarrow> decode_DCTrackResponse_fields L kvs zero
      | _ \<Rightarrow> None)"

subsection \<open>DCTrackResponse of the package \<^verbatim>\<open>dctrack/\<close>\<close>

fun dctrack_decode_fields ::
  "('f, 't) golib \<Rightarrow> (string \<times> json) list \<Rightarrow> 'f raw_record list \<Rightarrow> 'f raw_record list option" where
  "dctrack_decode_fields L [] cur = Some cur"
| "dctrack_decode_fields L (kx # kvs) cur =
     (if equal_fold (fst kx) ''records'' then
        (case decode_slice L (snd kx) of
           None \<Rightarrow> None
         | Some items \<Rightarrow> dctrack_decode_fields L kvs items)
      else dctrack_decode_fields L kvs cur)"

definition dctrack_Unmarshal :: "('f, 't) golib \<Rightarrow> json \<Rightarrow> 'f raw_record list option" where
  \<comment> \<open>the decoded \<^verbatim>\<open>Records\<close> of the one-field \<^verbatim>\<open>DCTrackResponse\<close>\<close>
  "dctrack_Unmarshal L j =
     (case j of
        JNull \<Rightarrow> Some []
      | JObject kvs \<Rightarrow> dctrack_decode_fields L kvs []
      | _ \<Rightarrow> None)"

section \<open>The HTTP exchange\<close>

text \<open>
  A request is kept as its parts: the URL that \<^verbatim>\<open>fmt.Sprintf\<close> builds from the base, the
  page number and the page size, followed by the optional query parameters, and the
  credentials or the bearer token of its headers. The remote service is a function from
  the number of requests it has received and the request to its reply. The only other
  effect of the client is \<^verbatim>\<open>time.Sleep\<close>. The world records both, with a clock that
  advances while the client sleeps; a request takes no time. A context is the instant at
  which it is done, if any: \<^verbatim>\<open>httpClient.Do\<close> on a context that is done fails with the
  context's error and nothing reaches the service.
\<close>

datatype request =
    LoginRequest string string string
      \<comment> \<open>base URL, user name, password\<close>
  | ItemsRequest string int int string string
      \<comment> \<open>base URL, pageNumber, pageSize, the rest of the query string, token\<close>

fun request_base :: "request \<Rightarrow> string" where
  "request_base (LoginRequest b u p) = b"
| "request_base (ItemsRequest b n m q t) = b"

fun request_query :: "request \<Rightarrow> string" where
  "request_query (LoginRequest b u p) = ''''"
| "request_query (ItemsRequest b n m q t) = q"

datatype body =
    ReadError string
  | Malformed
  | Document json

datatype reply =
    Err error
  | Response int string body
      \<comment> \<open>status code, \<^verbatim>\<open>Header.Get("Authorization")\<close>, body\<close>

datatype event =
    Attempt request
  | Sleep int

record world =
  clock :: int
  served :: nat
  events :: "event list"

type_synonym endpoint = "nat \<Rightarrow> request \<Rightarrow> reply"

type_synonym ctx = "int option"

definition ctx_done :: "ctx \<Rightarrow> int \<Rightarrow> bool" where
  "ctx_done c now = (case c of None \<Rightarrow> False | Some t \<Rightarrow> t \<le> now)"

definition Do :: "endpoint \<Rightarrow> ctx \<Rightarrow> request \<Rightarrow> world \<Rightarrow> reply \<times> world" where
  "Do ep c req w =
     (if ctx_done c (clock w) then
        (Err ContextCanceled, w\<lparr>events := events w @ [Attempt req]\<rparr>)
      else
        (ep (served w) req, w\<lparr>served := Suc (served w), events := events w @ [Attempt req]\<rparr>))"

definition time_Sleep :: "int \<Rightarrow> world \<Rightarrow> world" where
  "time_Sleep d w = w\<lparr>clock := clock w + max 0 d, events := events w @ [Sleep d]\<rparr>"

section \<open>The client\<close>

record Config =
  URL :: string
  Username :: string
  Password :: string
  PageSize :: int
  MaxRetries :: int
  RetryDelay :: int
  VerifySSL :: bool
  RequestAllFields :: bool

record ItemsParams =
  PageNumber :: int
  PageSize_p :: int
  Location_p :: string
  Status_p :: string
  ItemClass_p :: string
  Make_p :: string
  Model_p :: string
  SearchText :: string

record Client =
  config :: Config
  token :: string

definition validateConfig :: "Config \<Rightarrow> error option" where
  "validateConfig cfg =
     (if URL cfg = '''' then Some (InvalidConfiguration ''URL'')
      else if Username cfg = '''' then Some (InvalidConfiguration ''Username'')
      else if Password cfg = '''' then Some (InvalidConfiguration ''Password'')
      else None)"

definition second :: int where
  "second = 1000000000"

definition NewClient :: "Config \<Rightarrow> error + Client" where
  "NewClient cfg =
     (case validateConfig cfg of
        Some e \<Rightarrow> Inl e
      | None \<Rightarrow>
          (let cfg1 = (if PageSize cfg \<le> 0 then cfg\<lparr>PageSize := 1000\<rparr> else cfg);
               cfg2 = (if MaxRetries cfg1 \<le> 0 then cfg1\<lparr>MaxRetries := 3\<rparr> else cfg1);
               cfg3 = (if RetryDelay cfg2 \<le> 0 then cfg2\<lparr>RetryDelay := second\<rparr> else cfg2)
           in Inr \<lparr>config = cfg3, token = ''''\<rparr>))"

subsection \<open>login\<close>

definition login ::
  "('f, 't) golib \<Rightarrow> endpoint \<Rightarrow> ctx \<Rightarrow> Client \<Rightarrow> world \<Rightarrow> (Client \<times> error option) \<times> world" where
  "login L ep cx c w =
     (if \<not> url_ok L (URL (config c)) '''' then ((c, Some CreateLoginRequestError), w)
      else
        (let (r, w1) = Do ep cx (LoginRequest (URL (config c)) (Username (config c)) (Password (config c))) w in
         case r of
           Err e \<Rightarrow> ((c, Some (LoginRequestFailed e)), w1)
         | Response status authHeader b \<Rightarrow>
             (if status \<noteq> 200 then ((c, Some (LoginFailedStatus status)), w1)
              else if authHeader = '''' then ((c, Some NoAuthorizationHeader), w1)
              else if length authHeader > 7 \<and> take 7 authHeader = ''Bearer '' then
                ((c\<lparr>token := drop 7 authHeader\<rparr>, None), w1)
              else ((c, Some InvalidAuthorizationFormat), w1))))"

subsection \<open>fetchPage\<close>

fun map_records ::
  "('f::zero, 't) golib \<Rightarrow> 't \<Rightarrow> 'f raw_record list \<Rightarrow> ('f, 't) DCTrackItem list" where
  "map_records L now [] = []"
| "map_records L now (r # rs) =
     (case mapDCTrackRecord L now r of
        (item, None) \<Rightarrow> item # map_records L now rs
      | (item, Some e) \<Rightarrow> map_records L now rs)"

function fetchPage_loop ::
  "('f::zero, 't) golib \<Rightarrow> endpoint \<Rightarrow> ctx \<Rightarrow> Client \<Rightarrow> request \<Rightarrow> int \<Rightarrow> error option \<Rightarrow> world
     \<Rightarrow> (('f, 't) DCTrackItem list \<times> error option) \<times> world" where
  "fetchPage_loop L ep cx c req attempt lastErr w =
     (if attempt \<le> MaxRetries (config c) then
        (if \<not> url_ok L (request_base req) (request_query req) then (([], Some CreateRequestError), w)
         else
           (let (r, w1) = Do ep cx req w in
            case r of
              Err e \<Rightarrow>
                (if attempt < MaxRetries (config c) then
                   fetchPage_loop L ep cx c req (attempt + 1) (Some e)
                     (time_Sleep (RetryDelay (config c)) w1)
                 else (([], Some (AllRetriesFailed (Some e))), w1))
            | Response status h b \<Rightarrow>
                (if status \<noteq> 200 then
                   (if attempt < MaxRetries (config c) then
                      fetchPage_loop L ep cx c req (attempt + 1) (Some (RequestFailedStatus status))
                        (time_Sleep (RetryDelay (config c)) w1)
                    else (([], Some (AllRetriesFailed (Some (RequestFailedStatus status)))), w1))
                 else
                   (case b of
                      ReadError s \<Rightarrow> (([], Some (ReadBodyError s)), w1)
                    | Malformed \<Rightarrow> (([], Some DecodeError), w1)
                    | Document j \<Rightarrow>
                        (case Unmarshal L j of
                           None \<Rightarrow> (([], Some DecodeError), w1)
                         | Some dctrackResp \<Rightarrow>
                             ((map_records L (time_Now L (clock w1)) (SearchResults_Items dctrackResp),
                               None), w1))))))
      else (([], Some (AllRetriesFailed lastErr)), w))"
  by pat_completeness auto
termination
  by (relation "measure (\<lambda>(L, ep, cx, c, req, attempt, lastErr, w). nat (MaxRetries (config c) + 1 - attempt))") auto

declare fetchPage_loop.simps [simp del]

definition fetchPage ::
  "('f::zero, 't) golib \<Rightarrow> endpoint \<Rightarrow> ctx \<Rightarrow> Client \<Rightarrow> request \<Rightarrow> world
     \<Rightarrow> (('f, 't) DCTrackItem list \<times> error option) \<times> world" where
  "fetchPage L ep cx c req w = fetchPage_loop L ep cx c req 1 None w"

subsection \<open>GetItemsWithParams\<close>

text \<open>
  The loop over the pages has no bound in the Go code; here it takes the number of pages it
  may still fetch, and its result is \<open>None\<close> when that number is used up before the loop
  ends. Besides the result and the world, the function returns the list of its calls of
  \<open>fetchPage\<close>: the page number of each with what the call returned. The Go code does not
  build that list; the theorems below read it.
\<close>

definition query_string :: "ItemsParams \<Rightarrow> string" where
  "query_string params =
     (if Location_p params \<noteq> '''' then ''&location='' @ Location_p params else '''') @
     (if Status_p params \<noteq> '''' then ''&status='' @ Status_p params else '''') @
     (if SearchText params \<noteq> '''' then ''&searchText='' @ SearchText params else '''')"

type_synonym ('f, 't) visit = "int \<times> ('f, 't) DCTrackItem list \<times> error option"

fun pages_loop ::
  "nat \<Rightarrow> ('f::zero, 't) golib \<Rightarrow> endpoint \<Rightarrow> ctx \<Rightarrow> Client \<Rightarrow> ItemsParams \<Rightarrow> int \<Rightarrow> int
     \<Rightarrow> ('f, 't) DCTrackItem list \<Rightarrow> world
     \<Rightarrow> (('f, 't) DCTrackItem list \<times> error option) option \<times> world \<times> ('f, 't) visit list" where
  "pages_loop 0 L ep cx c params pageSize page allItems w = (None, w, [])"
| "pages_loop (Suc n) L ep cx c params pageSize page allItems w =
     (let url = ItemsRequest (URL (config c)) page pageSize (query_string params) (token c);
          ((items, err), w1) = fetchPage L ep cx c url w
      in case err of
           Some e \<Rightarrow> (Some ([], Some e), w1, [(page, items, err)])
         | None \<Rightarrow>
             (if length items = 0 then (Some (allItems, None), w1, [(page, items, err)])
              else if int (length items) < pageSize then
                (Some (allItems @ items, None), w1, [(page, items, err)])
              else if PageNumber params > 0 then
                (Some (allItems @ items, None), w1, [(page, items, err)])
              else
                (let (res, w2, visits) =
                       pages_loop n L ep cx c params pageSize (page + 1) (allItems @ items) w1
                 in (res, w2, (page, items, err) # visits))))"

definition first_page :: "ItemsParams \<Rightarrow> int" where
  "first_page params = (if PageNumber params > 0 then PageNumber params else 1)"

definition page_size :: "Client \<Rightarrow> ItemsParams \<Rightarrow> int" where
  "page_size c params = (if PageSize_p params > 0 then PageSize_p params else PageSize (config c))"

definition GetItemsWithParams ::
  "nat \<Rightarrow> ('f::zero, 't) golib \<Rightarrow> endpoint \<Rightarrow> ctx \<Rightarrow> Client \<Rightarrow> ItemsParams \<Rightarrow> world
     \<Rightarrow> (('f, 't) DCTrackItem list \<times> error option) option \<times> Client \<times> world \<times> ('f, 't) visit list" where
  "GetItemsWithParams fuel L ep cx c params w =
     (let ((c1, err), w1) = login L ep cx c w in
      case err of
        Some e \<Rightarrow> (Some ([], Some (AuthenticationFailed e)), c1, w1, [])
      | None \<Rightarrow>
          (let (res, w2, visits) =
                 pages_loop fuel L ep cx c1 params (page_size c1 params) (first_page params) [] w1
           in (res, c1, w2, visits)))"

section \<open>A stand-in for the library\<close>

text \<open>
  To evaluate the model on concrete inputs the library parameters need values. In
  \<open>plain_lib\<close> a \<^verbatim>\<open>float64\<close> is a rational and a time is an instant of the clock. Numbers
  are read from plain decimal literals (an optional minus sign, digits, an optional
  fraction) as the rational they denote; the conversions of the Go library accept such a
  literal and give the nearest \<^verbatim>\<open>float64\<close>, which is that rational when it is a dyadic one
  of moderate size, as 500.5 is. No time layout matches, and every URL is accepted. Numbers
  print as nothing: no evaluation below prints one.
\<close>

definition digit :: "char \<Rightarrow> nat option" where
  "digit c = (let n = (of_char c :: nat) in if 48 \<le> n \<and> n \<le> 57 then Some (n - 48) else None)"

fun read_digits :: "nat \<Rightarrow> string \<Rightarrow> nat option" where
  "read_digits acc [] = Some acc"
| "read_digits acc (c # cs) =
     (case digit c of None \<Rightarrow> None | Some d \<Rightarrow> read_digits (10 * acc + d) cs)"

definition read_nat :: "string \<Rightarrow> nat option" where
  "read_nat s = (if s = [] then None else read_digits 0 s)"

definition read_integer :: "string \<Rightarrow> int option" where
  "read_integer s =
     (case s of
        [] \<Rightarrow> None
      | c # cs \<Rightarrow>
          (if c = CHR ''-'' then map_option (\<lambda>n. - int n) (read_nat cs)
           else map_option int (read_nat s)))"

definition read_unsigned_decimal :: "string \<Rightarrow> rat option" where
  "read_unsigned_decimal s =
     (let ip = takeWhile (\<lambda>c. c \<noteq> CHR ''.'') s; fp = drop (length ip) s in
      case read_nat ip of
        None \<Rightarrow> None
      | Some i \<Rightarrow>
          (case fp of
             [] \<Rightarrow> Some (of_nat i)
           | dot # ds \<Rightarrow>
               (case read_nat ds of
                  None \<Rightarrow> None
                | Some f \<Rightarrow> Some (of_nat i + of_nat f / 10 ^ length ds))))"

definition read_decimal :: "string \<Rightarrow> rat option" where
  "read_decimal s =
     (case s of
        [] \<Rightarrow> None
      | c # cs \<Rightarrow>
          (if c = CHR ''-'' then map_option uminus (read_unsigned_decimal cs)
           else read_unsigned_decimal s))"

definition plain_lib :: "(rat, int) golib" where
  "plain_lib =
     \<lparr> json_float = read_decimal,
       json_int = read_integer,
       fmt_float = (\<lambda>x. ''''),
       fmt_composite = (\<lambda>v. ''''),
       sscanf_f = read_decimal,
       sscanf_d = read_integer,
       ParseFloat = read_decimal,
       Atoi = read_integer,
       time_Parse = (\<lambda>layout str. None),
       time_Now = (\<lambda>t. t),
       url_ok = (\<lambda>b q. True) \<rparr>"

section \<open>Auxiliary definitions for the statements\<close>

text \<open>
  \<open>failure_of\<close> is the error that the retry loop stores in \<^verbatim>\<open>lastErr\<close> for a reply, if the
  reply is one of the two kinds that it retries. \<open>retry_events\<close> is the trace of \<open>k + 1\<close>
  attempts with a delay between consecutive ones.

  For a call of \<open>fetchPage\<close> made by the page loop with page size \<open>N\<close>: the page is full
  (\<open>full_page\<close>) when the call succeeded with at least \<open>N\<close> items and at least one, and short
  (\<open>short_page\<close>) when it succeeded with fewer than \<open>N\<close> items or none; the loop goes on
  after it (\<open>continues\<close>) when the page is full and no page number was given. \<open>outcome\<close> is
  what the loop returns once it has stopped, read off the calls it made.

  The remaining definitions are concrete clients, services and records on which the model
  is evaluated. \<open>shape_A\<close> and \<open>shape_B\<close> are the two envelopes.
\<close>

definition failure_of :: "reply \<Rightarrow> error option" where
  "failure_of r =
     (case r of
        Err e \<Rightarrow> Some e
      | Response status h b \<Rightarrow> if status \<noteq> 200 then Some (RequestFailedStatus status) else None)"

fun retry_events :: "request \<Rightarrow> int \<Rightarrow> nat \<Rightarrow> event list" where
  "retry_events req d 0 = [Attempt req]"
| "retry_events req d (Suc k) = Attempt req # Sleep d # retry_events req d k"

definition always_500 :: endpoint where
  "always_500 n req = Response 500 '''' Malformed"

definition demo_config :: Config where
  "demo_config =
     \<lparr>URL = ''https://dctrack.example.com/api/v2'', Username = ''testuser'', Password = ''testpass'',
      PageSize = 2, MaxRetries = 3, RetryDelay = 10, VerifySSL = True, RequestAllFields = True\<rparr>"

definition demo_client :: Client where
  "demo_client = \<lparr>config = demo_config, token = ''mock-token-12345''\<rparr>"

definition start_world :: world where
  "start_world = \<lparr>clock = 0, served = 0, events = []\<rparr>"

definition demo_request :: "int \<Rightarrow> request" where
  "demo_request page = ItemsRequest (URL demo_config) page 2 '''' ''mock-token-12345''"

definition login_ok :: endpoint where
  "login_ok n req =
     (case req of
        LoginRequest b u p \<Rightarrow>
          (if u = ''testuser'' \<and> p = ''testpass'' then Response 200 ''Bearer mock-token-12345'' Malformed
           else Response 401 '''' Malformed)
      | ItemsRequest b pn ps q t \<Rightarrow> Response 404 '''' Malformed)"

definition full_page :: "int \<Rightarrow> ('f, 't) visit \<Rightarrow> bool" where
  "full_page N v = (case v of (p, items, err) \<Rightarrow> err = None \<and> items \<noteq> [] \<and> \<not> int (length items) < N)"

definition short_page :: "int \<Rightarrow> ('f, 't) visit \<Rightarrow> bool" where
  "short_page N v = (case v of (p, items, err) \<Rightarrow> err = None \<and> (items = [] \<or> int (length items) < N))"

definition continues :: "ItemsParams \<Rightarrow> int \<Rightarrow> ('f, 't) visit \<Rightarrow> bool" where
  "continues params N v = (full_page N v \<and> \<not> 0 < PageNumber params)"

definition outcome ::
  "('f, 't) DCTrackItem list \<Rightarrow> ('f, 't) visit list \<Rightarrow> ('f, 't) DCTrackItem list \<times> error option" where
  "outcome acc vis =
     (case snd (snd (last vis)) of
        Some e \<Rightarrow> ([], Some e)
      | None \<Rightarrow> (acc @ concat (map (\<lambda>v. fst (snd v)) vis), None))"

definition item_json :: "string \<Rightarrow> json" where
  "item_json i =
     JObject [(''id'', JString i), (''tiName'', JString ''Test Server''),
              (''cmbLocation'', JString ''TEST-DC''), (''cmbStatus'', JString ''Installed''),
              (''tiClass'', JString ''Device'')]"

definition shape_B :: "string \<Rightarrow> string \<Rightarrow> string \<Rightarrow> json list \<Rightarrow> json" where
  "shape_B t n m xs =
     JObject [(''totalRows'', JNumber t), (''pageNumber'', JNumber n), (''pageSize'', JNumber m),
              (''searchResults'', JObject [(''items'', JArray xs)])]"

definition shape_A :: "json list \<Rightarrow> json" where
  "shape_A xs = JObject [(''records'', JArray xs)]"

definition two_pages :: endpoint where
  "two_pages n req =
     (case req of
        LoginRequest b u p \<Rightarrow> Response 200 ''Bearer mock-token-12345'' Malformed
      | ItemsRequest b page ps q t \<Rightarrow>
          (if page = 1 then Response 200 '''' (Document (shape_B ''4'' ''1'' ''2'' [item_json ''a'', item_json ''b'']))
           else if page = 2 then Response 200 '''' (Document (shape_B ''4'' ''2'' ''2'' [item_json ''c'', item_json ''d'']))
           else Response 200 '''' (Document (shape_B ''4'' ''3'' ''2'' []))))"

definition all_pages :: ItemsParams where
  "all_pages = \<lparr>PageNumber = 0, PageSize_p = 0, Location_p = '''', Status_p = '''', ItemClass_p = '''',
                 Make_p = '''', Model_p = '''', SearchText = ''''\<rparr>"

definition item_record :: "string \<Rightarrow> 'f raw_record" where
  "item_record i =
     map_of [(''tiClass'', VString ''Device''), (''cmbStatus'', VString ''Installed''),
             (''cmbLocation'', VString ''TEST-DC''), (''tiName'', VString ''Test Server''),
             (''id'', VString i)]"

definition demo_item :: "string \<Rightarrow> (rat, int) DCTrackItem" where
  "demo_item i = fill_item plain_lib 0 (item_record i)"

definition one_page_then_500 :: endpoint where
  "one_page_then_500 n req =
     (case req of
        LoginRequest b u p \<Rightarrow> Response 200 ''Bearer mock-token-12345'' Malformed
      | ItemsRequest b page ps q t \<Rightarrow>
          (if page = 1 then Response 200 '''' (Document (shape_B ''4'' ''1'' ''2'' [item_json ''a'', item_json ''b'']))
           else Response 500 '''' Malformed))"

definition page_with_bad_record :: endpoint where
  "page_with_bad_record n req =
     (case req of
        LoginRequest b u p \<Rightarrow> Response 200 ''Bearer mock-token-12345'' Malformed
      | ItemsRequest b page ps q t \<Rightarrow>
          Response 200 '''' (Document (shape_B ''9'' ''1'' ''2'' [item_json ''a'', item_json ''''])))"

definition records_endpoint :: endpoint where
  "records_endpoint n req =
     (case req of
        LoginRequest b u p \<Rightarrow> Response 200 ''Bearer mock-token-12345'' Malformed
      | ItemsRequest b page ps q t \<Rightarrow>
          Response 200 '''' (Document (shape_A [item_json ''test-001''])))"

definition login_request :: request where
  "login_request = LoginRequest (URL demo_config) ''testuser'' ''testpass''"

definition explicit_page :: ItemsParams where
  "explicit_page = all_pages\<lparr>PageNumber := 2\<rparr>"

definition no_id_record :: "'f raw_record" where
  "no_id_record =
     map_of [(''tiName'', VString ''Test Server''), (''tiClass'', VString ''Device''),
             (''cmbStatus'', VString ''Installed''), (''cmbLocation'', VString ''TEST-DC'')]"

definition spec_record :: "'f raw_record" where
  "spec_record =
     map_of [(''id'', VString ''t1''), (''name'', VString ''Server1''), (''power'', VString ''500.5'')]"

definition power_record :: "'f raw_record" where
  "power_record =
     map_of [(''id'', VString ''t1''), (''tiName'', VString ''Server1''),
             (''tiClass'', VString ''Device''), (''cmbStatus'', VString ''Installed''),
             (''cmbLocation'', VString ''TEST-DC''), (''tiItemOriginalPower'', VString ''500.5'')]"

section \<open>Properties\<close>

subsection \<open>Configuration\<close>

lemma NewClient_defaults:
  assumes "NewClient cfg = Inr c"
  shows "0 < PageSize (config c) \<and> 1 \<le> MaxRetries (config c) \<and> 0 < RetryDelay (config c) \<and>
         0 < page_size c params"
  using assms
  by (auto simp: NewClient_def page_size_def second_def Let_def split: option.splits if_splits)


subsection \<open>The retry loop of fetchPage\<close>

lemma events_Do: "events (snd (Do ep cx req w)) = events w @ [Attempt req]"
  by (simp add: Do_def)

lemma clock_Do: "clock (snd (Do ep cx req w)) = clock w"
  by (simp add: Do_def)

lemma events_time_Sleep: "events (time_Sleep d w) = events w @ [Sleep d]"
  by (simp add: time_Sleep_def)

lemma clock_time_Sleep: "clock (time_Sleep d w) = clock w + max 0 d"
  by (simp add: time_Sleep_def)

lemma fetchPage_loop_failed_attempt:
  assumes "attempt \<le> MaxRetries (config c)"
    and "url_ok L (request_base req) (request_query req)"
    and "Do ep cx req w = (r, w1)"
    and "failure_of r = Some e"
  shows "fetchPage_loop L ep cx c req attempt lastErr w =
           (if attempt < MaxRetries (config c) then
              fetchPage_loop L ep cx c req (attempt + 1) (Some e) (time_Sleep (RetryDelay (config c)) w1)
            else (([], Some (AllRetriesFailed (Some e))), w1))"
  using assms
  by (subst fetchPage_loop.simps) (auto simp: failure_of_def split: reply.splits if_splits)

text \<open>
  Claim C2. With \<open>MaxRetries = 3\<close> and an endpoint whose every reply to the request is a
  failure (a transport error or a status other than 200), \<open>fetchPage\<close> calls
  \<open>httpClient.Do\<close> exactly three times, sleeps the configured \<open>RetryDelay\<close> between
  consecutive attempts (the same delay each time), and returns the error
  \<open>AllRetriesFailed\<close> that wraps the failure of the third attempt.
\<close>

theorem fetchPage_three_failures:
  assumes "MaxRetries (config c) = 3"
    and "url_ok L (request_base req) (request_query req)"
    and "\<forall>n. failure_of (ep n req) \<noteq> None"
  shows "\<exists>r1 w1 r2 w2 r3 w3 e3.
           Do ep cx req w = (r1, w1) \<and>
           Do ep cx req (time_Sleep (RetryDelay (config c)) w1) = (r2, w2) \<and>
           Do ep cx req (time_Sleep (RetryDelay (config c)) w2) = (r3, w3) \<and>
           failure_of r3 = Some e3 \<and>
           fetchPage L ep cx c req w = (([], Some (AllRetriesFailed (Some e3))), w3) \<and>
           events w3 = events w @
             [Attempt req, Sleep (RetryDelay (config c)),
              Attempt req, Sleep (RetryDelay (config c)),
              Attempt req]"
proof -
  let ?d = "RetryDelay (config c)"
  have fails: "failure_of (fst (Do ep cx req v)) \<noteq> None" for v
    using assms(3) by (simp add: Do_def failure_of_def)
  obtain r1 w1 where d1: "Do ep cx req w = (r1, w1)" by (cases "Do ep cx req w")
  obtain r2 w2 where d2: "Do ep cx req (time_Sleep ?d w1) = (r2, w2)"
    by (cases "Do ep cx req (time_Sleep ?d w1)")
  obtain r3 w3 where d3: "Do ep cx req (time_Sleep ?d w2) = (r3, w3)"
    by (cases "Do ep cx req (time_Sleep ?d w2)")
  obtain e1 where e1: "failure_of r1 = Some e1" using fails [of w] d1 by auto
  obtain e2 where e2: "failure_of r2 = Some e2" using fails [of "time_Sleep ?d w1"] d2 by auto
  obtain e3 where e3: "failure_of r3 = Some e3" using fails [of "time_Sleep ?d w2"] d3 by auto
  have s1: "fetchPage_loop L ep cx c req 1 None w =
            fetchPage_loop L ep cx c req 2 (Some e1) (time_Sleep ?d w1)"
    using fetchPage_loop_failed_attempt [where c = c and L = L and lastErr = None and attempt = 1, OF _ assms(2) d1 e1] assms(1) by simp
  have s2: "fetchPage_loop L ep cx c req 2 (Some e1) (time_Sleep ?d w1) =
            fetchPage_loop L ep cx c req 3 (Some e2) (time_Sleep ?d w2)"
    using fetchPage_loop_failed_attempt [where c = c and L = L and lastErr = "Some e1" and attempt = 2, OF _ assms(2) d2 e2] assms(1) by simp
  have s3: "fetchPage_loop L ep cx c req 3 (Some e2) (time_Sleep ?d w2) =
            (([], Some (AllRetriesFailed (Some e3))), w3)"
    using fetchPage_loop_failed_attempt [where c = c and L = L and lastErr = "Some e2" and attempt = 3, OF _ assms(2) d3 e3] assms(1) by simp
  have ev: "events w3 = events w @ [Attempt req, Sleep ?d, Attempt req, Sleep ?d, Attempt req]"
    using events_Do [of ep cx req w] events_Do [of ep cx req "time_Sleep ?d w1"]
      events_Do [of ep cx req "time_Sleep ?d w2"] d1 d2 d3
    by (simp add: events_time_Sleep)
  show ?thesis
    using d1 d2 d3 e3 s1 s2 s3 ev by (simp add: fetchPage_def)
qed

theorem fetchPage_three_failures_witness:
  "fetchPage plain_lib always_500 None demo_client (demo_request 1) start_world =
     (([], Some (AllRetriesFailed (Some (RequestFailedStatus 500)))),
      \<lparr>clock = 20, served = 3,
        events = [Attempt (demo_request 1), Sleep 10, Attempt (demo_request 1), Sleep 10,
                  Attempt (demo_request 1)]\<rparr>)"
proof -
  have a: "MaxRetries (config demo_client) = 3" by (simp add: demo_client_def demo_config_def)
  have b: "url_ok plain_lib (request_base (demo_request 1)) (request_query (demo_request 1))"
    by (simp add: plain_lib_def)
  have c: "\<forall>n. failure_of (always_500 n (demo_request 1)) \<noteq> None"
    by (simp add: failure_of_def always_500_def)
  from fetchPage_three_failures [where c = demo_client and L = plain_lib and ep = always_500 and req = "demo_request 1" and cx = None and w = start_world, OF a b c]
  show ?thesis
    by (auto simp: Do_def ctx_done_def time_Sleep_def start_world_def always_500_def
        failure_of_def demo_client_def demo_config_def)
qed

lemma fetchPage_loop_events_extend:
  "fetchPage_loop L ep cx c req attempt lastErr w = (r, w') \<Longrightarrow> \<exists>es. events w' = events w @ es"
proof (induction L ep cx c req attempt lastErr w rule: fetchPage_loop.induct)
  case (1 L ep cx c req attempt lastErr w)
  show ?case
  proof (cases "attempt \<le> MaxRetries (config c) \<and> url_ok L (request_base req) (request_query req)")
    case False
    then have "w' = w" using "1.prems" by (subst (asm) fetchPage_loop.simps) (auto split: if_splits)
    then show ?thesis by simp
  next
    case True
    then have le: "attempt \<le> MaxRetries (config c)"
      and ok: "url_ok L (request_base req) (request_query req)" by simp_all
    obtain rp w2 where d: "Do ep cx req w = (rp, w2)" by (cases "Do ep cx req w")
    then have e2: "events w2 = events w @ [Attempt req]" using events_Do [of ep cx req w] by simp
    show ?thesis
    proof (cases "failure_of rp")
      case (Some e)
      show ?thesis
      proof (cases "attempt < MaxRetries (config c)")
        case lt: True
        then have next_eq: "fetchPage_loop L ep cx c req (attempt + 1) (Some e)
             (time_Sleep (RetryDelay (config c)) w2) = (r, w')"
          using "1.prems" fetchPage_loop_failed_attempt [OF le ok d Some, of lastErr] by simp
        have "\<exists>es. events w' = events (time_Sleep (RetryDelay (config c)) w2) @ es"
        proof (cases rp)
          case (Err e')
          then have "e' = e" using Some by (simp add: failure_of_def)
          then show ?thesis using "1.IH"(1) [OF le _ refl d [symmetric] Err lt] ok next_eq by simp
        next
          case (Response status h b)
          then have s: "status \<noteq> 200" "e = RequestFailedStatus status"
            using Some by (auto simp: failure_of_def split: if_splits)
          then show ?thesis using "1.IH"(2) [OF le _ refl d [symmetric] Response s(1) lt] ok next_eq by simp
        qed
        then show ?thesis using e2 by (auto simp: events_time_Sleep)
      next
        case False
        then have "w' = w2"
          using "1.prems" fetchPage_loop_failed_attempt [OF le ok d Some, of lastErr] by simp
        then show ?thesis using e2 by simp
      qed
    next
      case None
      then obtain h b where rp: "rp = Response 200 h b"
        by (cases rp) (auto simp: failure_of_def split: if_splits)
      have "w' = w2"
        using "1.prems" le ok d rp
        by (subst (asm) fetchPage_loop.simps) (auto split: body.splits option.splits)
      then show ?thesis using e2 by simp
    qed
  qed
qed

lemma fetchPage_attempts_once:
  assumes "fetchPage L ep cx c req w = (r, w')"
    and "1 \<le> MaxRetries (config c)"
    and "url_ok L (request_base req) (request_query req)"
  shows "\<exists>es. events w' = events w @ Attempt req # es"
proof -
  obtain rp w2 where d: "Do ep cx req w = (rp, w2)" by (cases "Do ep cx req w")
  then have e2: "events w2 = events w @ [Attempt req]" using events_Do [of ep cx req w] by simp
  have l: "fetchPage_loop L ep cx c req 1 None w = (r, w')" using assms(1) by (simp add: fetchPage_def)
  show ?thesis
  proof (cases "failure_of rp")
    case (Some e)
    show ?thesis
    proof (cases "1 < MaxRetries (config c)")
      case True
      then have "fetchPage_loop L ep cx c req (1 + 1) (Some e)
             (time_Sleep (RetryDelay (config c)) w2) = (r, w')"
        using l fetchPage_loop_failed_attempt [OF assms(2) assms(3) d Some, of None] by simp
      from fetchPage_loop_events_extend [OF this]
      show ?thesis using e2 by (auto simp: events_time_Sleep)
    next
      case False
      then have "w' = w2"
        using l fetchPage_loop_failed_attempt [OF assms(2) assms(3) d Some, of None] by simp
      then show ?thesis using e2 by simp
    qed
  next
    case None
    then obtain h b where rp: "rp = Response 200 h b"
      by (cases rp) (auto simp: failure_of_def split: if_splits)
    have "w' = w2"
      using l assms(2) assms(3) d rp
      by (subst (asm) fetchPage_loop.simps) (auto split: body.splits option.splits)
    then show ?thesis using e2 by simp
  qed
qed

lemma fetchPage_loop_success:
  "fetchPage_loop L ep cx c req attempt lastErr w = ((items, None), w1) \<Longrightarrow>
   \<exists>w0 h j resp. Do ep cx req w0 = (Response 200 h (Document j), w1) \<and>
      Unmarshal L j = Some resp \<and>
      items = map_records L (time_Now L (clock w1)) (SearchResults_Items resp)"
proof (induction L ep cx c req attempt lastErr w rule: fetchPage_loop.induct)
  case (1 L ep cx c req attempt lastErr w)
  obtain r w2 where d: "Do ep cx req w = (r, w2)" by (cases "Do ep cx req w")
  have le: "attempt \<le> MaxRetries (config c)" and ok: "url_ok L (request_base req) (request_query req)"
    using "1.prems" by (subst (asm) fetchPage_loop.simps, simp split: if_splits)+
  show ?case
  proof (cases "failure_of r")
    case (Some e)
    have lt: "attempt < MaxRetries (config c)"
      using "1.prems" fetchPage_loop_failed_attempt [OF le ok d Some, of lastErr]
      by (simp split: if_splits)
    then have next_eq: "fetchPage_loop L ep cx c req (attempt + 1) (Some e)
             (time_Sleep (RetryDelay (config c)) w2) = ((items, None), w1)"
      using "1.prems" fetchPage_loop_failed_attempt [OF le ok d Some, of lastErr] by simp
    show ?thesis
    proof (cases r)
      case (Err e')
      then have "e' = e" using Some by (simp add: failure_of_def)
      then show ?thesis using "1.IH"(1) [OF le _ refl d [symmetric] Err lt] ok next_eq by simp
    next
      case (Response status h b)
      then have s: "status \<noteq> 200" "e = RequestFailedStatus status"
        using Some by (auto simp: failure_of_def split: if_splits)
      then show ?thesis using "1.IH"(2) [OF le _ refl d [symmetric] Response s(1) lt] ok next_eq by simp
    qed
  next
    case None
    then obtain h b where r: "r = Response 200 h b"
      by (cases r) (auto simp: failure_of_def split: if_splits)
    have "fetchPage_loop L ep cx c req attempt lastErr w =
       (case b of
          ReadError s \<Rightarrow> (([], Some (ReadBodyError s)), w2)
        | Malformed \<Rightarrow> (([], Some DecodeError), w2)
        | Document j \<Rightarrow>
            (case Unmarshal L j of
               None \<Rightarrow> (([], Some DecodeError), w2)
             | Some dctrackResp \<Rightarrow>
                 ((map_records L (time_Now L (clock w2)) (SearchResults_Items dctrackResp), None), w2)))"
      using le ok d r by (subst fetchPage_loop.simps) simp
    then show ?thesis using "1.prems" d r
      by (auto split: body.splits option.splits)
  qed
qed


subsection \<open>A context that is done during a delay\<close>

lemma ctx_done_mono: "ctx_done cx t \<Longrightarrow> t \<le> t' \<Longrightarrow> ctx_done cx t'"
  by (auto simp: ctx_done_def split: option.splits)

lemma Do_ctx_done:
  "ctx_done cx (clock w) \<Longrightarrow> Do ep cx req w = (Err ContextCanceled, w\<lparr>events := events w @ [Attempt req]\<rparr>)"
  by (simp add: Do_def)

lemma fetchPage_loop_ctx_done:
  assumes "url_ok L (request_base req) (request_query req)"
  shows "ctx_done cx (clock w) \<Longrightarrow> attempt \<le> MaxRetries (config c) \<Longrightarrow>
         k = nat (MaxRetries (config c) - attempt) \<Longrightarrow>
         \<exists>w'. fetchPage_loop L ep cx c req attempt lastErr w =
                 (([], Some (AllRetriesFailed (Some ContextCanceled))), w') \<and>
               events w' = events w @ retry_events req (RetryDelay (config c)) k \<and>
               clock w' = clock w + int k * max 0 (RetryDelay (config c)) \<and>
               served w' = served w"
proof (induction k arbitrary: attempt lastErr w)
  case 0
  then have eq: "attempt = MaxRetries (config c)" by simp
  show ?case
    using fetchPage_loop_failed_attempt [where attempt = attempt and c = c and L = L and lastErr = lastErr,
        OF "0.prems"(2) assms Do_ctx_done [OF "0.prems"(1)]] eq
    by (simp add: failure_of_def)
next
  case (Suc k)
  let ?d = "RetryDelay (config c)"
  let ?w1 = "w\<lparr>events := events w @ [Attempt req]\<rparr>"
  have lt: "attempt < MaxRetries (config c)" using Suc.prems by linarith
  have step: "fetchPage_loop L ep cx c req attempt lastErr w =
              fetchPage_loop L ep cx c req (attempt + 1) (Some ContextCanceled) (time_Sleep ?d ?w1)"
    using fetchPage_loop_failed_attempt [where attempt = attempt and c = c and L = L and lastErr = lastErr,
        OF Suc.prems(2) assms Do_ctx_done [OF Suc.prems(1)]] lt
    by (simp add: failure_of_def)
  have dn: "ctx_done cx (clock (time_Sleep ?d ?w1))"
    using ctx_done_mono [OF Suc.prems(1)] by (simp add: time_Sleep_def)
  have k: "k = nat (MaxRetries (config c) - (attempt + 1))" using Suc.prems by linarith
  from Suc.IH [where lastErr = "Some ContextCanceled" and attempt = "attempt + 1", OF dn _ k] lt
  obtain w' where w': "fetchPage_loop L ep cx c req (attempt + 1) (Some ContextCanceled) (time_Sleep ?d ?w1) =
                 (([], Some (AllRetriesFailed (Some ContextCanceled))), w')"
               "events w' = events (time_Sleep ?d ?w1) @ retry_events req ?d k"
               "clock w' = clock (time_Sleep ?d ?w1) + int k * max 0 ?d"
               "served w' = served (time_Sleep ?d ?w1)"
    by auto
  show ?case
    using step w' by (simp add: time_Sleep_def algebra_simps)
qed

text \<open>
  \<^verbatim>\<open>time.Sleep\<close> does not watch the context. When an attempt fails and the context becomes
  done during the delay that follows, the delay runs to its end, every remaining attempt is
  still made (each fails at once with the context's error and, but for the last, is followed
  by another full delay), and the loop then returns \<open>AllRetriesFailed\<close> wrapping the context's
  error; from the failed attempt on this takes the delay times the number of attempts that
  remain.
\<close>

lemma fetchPage_loop_cancel_during_delay:
  assumes "url_ok L (request_base req) (request_query req)"
    and "attempt < MaxRetries (config c)"
    and "Do ep cx req w = (r, w1)"
    and "failure_of r = Some e"
    and "cx = Some t"
    and "clock w < t"
    and "t \<le> clock w + max 0 (RetryDelay (config c))"
  shows "\<exists>w'. fetchPage_loop L ep cx c req attempt lastErr w =
                 (([], Some (AllRetriesFailed (Some ContextCanceled))), w') \<and>
               events w' = events w @ Attempt req # Sleep (RetryDelay (config c)) #
                 retry_events req (RetryDelay (config c)) (nat (MaxRetries (config c) - attempt - 1)) \<and>
               clock w' = clock w + (MaxRetries (config c) - attempt) * max 0 (RetryDelay (config c))"
proof -
  let ?d = "RetryDelay (config c)"
  let ?k = "nat (MaxRetries (config c) - (attempt + 1))"
  have step: "fetchPage_loop L ep cx c req attempt lastErr w =
              fetchPage_loop L ep cx c req (attempt + 1) (Some e) (time_Sleep ?d w1)"
    using fetchPage_loop_failed_attempt [where attempt = attempt and c = c and L = L and lastErr = lastErr,
        OF _ assms(1) assms(3) assms(4)] assms(2)
    by simp
  have w1: "clock w1 = clock w" "events w1 = events w @ [Attempt req]"
    using clock_Do [of ep cx req w] events_Do [of ep cx req w] assms(3) by simp_all
  have dn: "ctx_done cx (clock (time_Sleep ?d w1))"
    using assms(5) assms(7) w1 by (simp add: ctx_done_def time_Sleep_def)
  from fetchPage_loop_ctx_done [where c = c and lastErr = "Some e" and L = L and ep = ep and attempt = "attempt + 1", OF assms(1) dn _ refl] assms(2)
  obtain w' where w': "fetchPage_loop L ep cx c req (attempt + 1) (Some e) (time_Sleep ?d w1) =
                 (([], Some (AllRetriesFailed (Some ContextCanceled))), w')"
               "events w' = events (time_Sleep ?d w1) @ retry_events req ?d ?k"
               "clock w' = clock (time_Sleep ?d w1) + int ?k * max 0 ?d"
    by auto
  have ik: "int ?k = MaxRetries (config c) - attempt - 1" using assms(2) by simp
  have "clock w' = clock w + max 0 ?d + (MaxRetries (config c) - attempt - 1) * max 0 ?d"
    using w'(3) w1(1) unfolding ik by (simp add: time_Sleep_def)
  also have "\<dots> = clock w + (MaxRetries (config c) - attempt) * max 0 ?d"
    by (simp add: algebra_simps)
  finally have "clock w' = clock w + (MaxRetries (config c) - attempt) * max 0 ?d" .
  moreover have "?k = nat (MaxRetries (config c) - attempt - 1)" by simp
  ultimately show ?thesis
    using step w' w1 by (simp add: time_Sleep_def)
qed

text \<open>
  Claim C8, at the failing input. The client makes up to three attempts with a delay of 10
  and every reply is status 500; the context becomes done at instant 5, inside the first
  delay. The client sleeps until 10, makes the second attempt, sleeps until 20, makes the
  third attempt, and only then returns, at instant 20; the error wraps the context's error.
  Only the first request reaches the service.
\<close>

theorem fetchPage_cancel_run:
  "fetchPage plain_lib always_500 (Some 5) demo_client (demo_request 1) start_world =
     (([], Some (AllRetriesFailed (Some ContextCanceled))),
      \<lparr>clock = 20, served = 1,
        events = [Attempt (demo_request 1), Sleep 10, Attempt (demo_request 1), Sleep 10,
                  Attempt (demo_request 1)]\<rparr>)"
  by (simp add: fetchPage_def fetchPage_loop.simps Do_def ctx_done_def time_Sleep_def start_world_def
      always_500_def demo_client_def demo_config_def plain_lib_def)


subsection \<open>login\<close>

lemma bearer_prefix_iff:
  "(length h > 7 \<and> take 7 h = ''Bearer '') = (\<exists>tok. tok \<noteq> '''' \<and> h = ''Bearer '' @ tok)"
proof
  assume a: "length h > 7 \<and> take 7 h = ''Bearer ''"
  then have "h = ''Bearer '' @ drop 7 h"
    using append_take_drop_id [of 7 h] by simp
  moreover have "drop 7 h \<noteq> ''''" using a by simp
  ultimately show "\<exists>tok. tok \<noteq> '''' \<and> h = ''Bearer '' @ tok" by blast
next
  assume "\<exists>tok. tok \<noteq> '''' \<and> h = ''Bearer '' @ tok"
  then show "length h > 7 \<and> take 7 h = ''Bearer ''" by auto
qed

text \<open>
  Claim C4. \<open>login\<close> succeeds, and then stores a non-empty token, exactly when the
  authentication endpoint answers status 200 with an \<open>Authorization\<close> header of the form
  \<open>Bearer\<close>, a space, and a non-empty token. Any other status gives the error "login
  failed with status N" (the spec's invalid-credentials error), and status 200 with a
  missing or malformed header gives "no Authorization header" or "invalid Authorization
  header format" (the spec's malformed-response error).
\<close>

theorem login_token_iff:
  assumes "r = fst (Do ep cx (LoginRequest (URL (config c)) (Username (config c)) (Password (config c))) w)"
    and "login L ep cx c w = ((c1, err), w1)"
  shows "((err = None) =
            (url_ok L (URL (config c)) '''' \<and>
             (\<exists>tok b. tok \<noteq> '''' \<and> r = Response 200 (''Bearer '' @ tok) b))) \<and>
         (err = None \<longrightarrow> token c1 \<noteq> '''' \<and> (\<exists>b. r = Response 200 (''Bearer '' @ token c1) b)) \<and>
         (\<forall>status h b. url_ok L (URL (config c)) '''' \<and> r = Response status h b \<and> status \<noteq> 200
            \<longrightarrow> err = Some (LoginFailedStatus status)) \<and>
         (\<forall>h b. url_ok L (URL (config c)) '''' \<and> r = Response 200 h b \<and>
                \<not> (\<exists>tok. tok \<noteq> '''' \<and> h = ''Bearer '' @ tok)
            \<longrightarrow> err = Some (if h = '''' then NoAuthorizationHeader else InvalidAuthorizationFormat))"
proof (cases "url_ok L (URL (config c)) ''''")
  case False
  then show ?thesis using assms(2) by (auto simp: login_def)
next
  case True
  let ?req = "LoginRequest (URL (config c)) (Username (config c)) (Password (config c))"
  obtain r' w' where d: "Do ep cx ?req w = (r', w')" by (cases "Do ep cx ?req w")
  then have r: "r' = r" using assms(1) by simp
  show ?thesis
  proof (cases r)
    case (Err e)
    then show ?thesis using assms(2) True d r by (auto simp: login_def)
  next
    case (Response status h b)
    show ?thesis
    proof (cases "status = 200")
      case False
      then show ?thesis using assms(2) True d r Response by (auto simp: login_def)
    next
      case s: True
      show ?thesis
      proof (cases "\<exists>tok. tok \<noteq> '''' \<and> h = ''Bearer '' @ tok")
        case True
        then obtain tok where t: "tok \<noteq> ''''" "h = ''Bearer '' @ tok" by blast
        then show ?thesis
          using assms(2) \<open>url_ok L (URL (config c)) ''''\<close> d r Response s
          by (auto simp: login_def)
      next
        case False
        then have "\<not> (length h > 7 \<and> take 7 h = ''Bearer '')"
          using bearer_prefix_iff [of h] by simp
        then show ?thesis
          using assms(2) \<open>url_ok L (URL (config c)) ''''\<close> d r Response s False
          by (auto simp: login_def split: if_splits)
      qed
    qed
  qed
qed

theorem login_token_iff_witness:
  "login plain_lib login_ok None (demo_client\<lparr>token := ''''\<rparr>) start_world =
     ((demo_client, None),
      \<lparr>clock = 0, served = 1,
        events = [Attempt (LoginRequest (URL demo_config) ''testuser'' ''testpass'')]\<rparr>) \<and>
   token demo_client \<noteq> ''''"
proof -
  let ?c = "demo_client\<lparr>token := ''''\<rparr>"
  let ?req = "LoginRequest (URL (config ?c)) (Username (config ?c)) (Password (config ?c))"
  obtain c1 err w1 where l: "login plain_lib login_ok None ?c start_world = ((c1, err), w1)"
    by (metis surj_pair)
  have ok: "url_ok plain_lib (URL (config ?c)) '''' \<and>
        (\<exists>tok b. tok \<noteq> '''' \<and> fst (Do login_ok None ?req start_world) = Response 200 (''Bearer '' @ tok) b)"
    by (simp add: plain_lib_def Do_def ctx_done_def login_ok_def demo_client_def demo_config_def)
  from login_token_iff [OF refl l] ok have "err = None \<and> token c1 \<noteq> ''''" by blast
  moreover have "login plain_lib login_ok None ?c start_world =
     ((demo_client, None),
      \<lparr>clock = 0, served = 1,
        events = [Attempt (LoginRequest (URL demo_config) ''testuser'' ''testpass'')]\<rparr>)"
    by (simp add: login_def plain_lib_def Do_def ctx_done_def login_ok_def demo_client_def
        demo_config_def start_world_def)
  ultimately show ?thesis using l by simp
qed


subsection \<open>The mappers\<close>

lemma getString_absent:
  "r key = None \<or> r key = Some VNil \<or> r key = Some (VString '''') \<Longrightarrow> getString L r key = ''''"
  by (auto simp: getString_def Sprintf_v_def)

lemma getString_VString: "r key = Some (VString s) \<Longrightarrow> getString L r key = s"
  by (simp add: getString_def Sprintf_v_def)

lemma fill_item_required:
  "ID (fill_item L now r) = getString L r ''id''"
  "Name (fill_item L now r) = getString L r ''tiName''"
  "ItemClass (fill_item L now r) = getString L r ''tiClass''"
  "Status (fill_item L now r) = getString L r ''cmbStatus''"
  "Location (fill_item L now r) = getString L r ''cmbLocation''"
  "OriginalPower (fill_item L now r) = getFloat L r ''tiItemOriginalPower''"
  by (simp_all add: fill_item_def)

lemma dctrack_map_fields:
  "snd (dctrack_mapDCTrackRecord L now r) = None"
  "ID (fst (dctrack_mapDCTrackRecord L now r)) = getString L r ''id''"
  "Name (fst (dctrack_mapDCTrackRecord L now r)) = getString L r ''tiName''"
  "OriginalPower (fst (dctrack_mapDCTrackRecord L now r)) = dctrack_getFloat L r ''tiItemOriginalPower''"
  by (simp_all add: dctrack_mapDCTrackRecord_def)

lemma map_records_filter:
  "map_records L now rs = map fst (filter (\<lambda>p. snd p = None) (map (mapDCTrackRecord L now) rs))"
  by (induction rs) (auto split: prod.splits option.splits)

lemma length_map_records: "length (map_records L now rs) \<le> length rs"
  by (simp add: map_records_filter)

lemma length_map_records_skipped:
  assumes "r \<in> set rs" and "snd (mapDCTrackRecord L now r) \<noteq> None"
  shows "length (map_records L now rs) < length rs"
proof -
  have "mapDCTrackRecord L now r \<in> set (map (mapDCTrackRecord L now) rs)" using assms(1) by simp
  then have "length (filter (\<lambda>p. snd p = None) (map (mapDCTrackRecord L now) rs))
               < length (map (mapDCTrackRecord L now) rs)"
    using assms(2) by (intro length_filter_less [where x = "mapDCTrackRecord L now r"]) auto
  then show ?thesis by (simp add: map_records_filter)
qed

lemma decode_item_json: "decode_record L (item_json i) = Some (item_record i)"
  by (simp add: decode_record_def item_json_def item_record_def)

lemma getString_item_record:
  "getString L (item_record i) ''id'' = i"
  "getString L (item_record i) ''tiName'' = ''Test Server''"
  "getString L (item_record i) ''tiClass'' = ''Device''"
  "getString L (item_record i) ''cmbStatus'' = ''Installed''"
  "getString L (item_record i) ''cmbLocation'' = ''TEST-DC''"
  by (simp_all add: getString_def item_record_def Sprintf_v_def)

lemma map_item_record:
  "mapDCTrackRecord L now (item_record i) =
     (fill_item L now (item_record i), if i = '''' then Some (MissingRequiredField ''id'') else None)"
  by (simp add: mapDCTrackRecord_def validate_item_def fill_item_required getString_item_record Let_def)

lemma ID_demo_item: "ID (demo_item i) = i"
  by (simp add: demo_item_def fill_item_required getString_item_record)

text \<open>
  Claim C6, as the code has it. Each mapper is a function of the record, so each follows one
  policy, but the two packages differ. In the root package a record whose \<^verbatim>\<open>id\<close> is absent,
  null or empty is rejected with "missing required field: id", and a record is accepted only
  if all five required fields are non-empty; the mapper of \<^verbatim>\<open>dctrack/\<close> accepts the same
  record with an empty \<open>ID\<close>. In the root package a mapping failure is not fatal to the
  page: \<open>fetchPage\<close> keeps exactly the records that map without error, in their order.
\<close>

theorem missing_id_policy:
  "(r ''id'' = None \<or> r ''id'' = Some VNil \<or> r ''id'' = Some (VString '''')
      \<longrightarrow> snd (mapDCTrackRecord L now r) = Some (MissingRequiredField ''id'') \<and>
          snd (dctrack_mapDCTrackRecord L now r) = None \<and>
          ID (fst (dctrack_mapDCTrackRecord L now r)) = '''') \<and>
   (snd (mapDCTrackRecord L now r) = None \<longrightarrow>
      getString L r ''id'' \<noteq> '''' \<and> getString L r ''tiName'' \<noteq> '''' \<and>
      getString L r ''tiClass'' \<noteq> '''' \<and> getString L r ''cmbStatus'' \<noteq> '''' \<and>
      getString L r ''cmbLocation'' \<noteq> '''') \<and>
   map_records L now rs = map fst (filter (\<lambda>p. snd p = None) (map (mapDCTrackRecord L now) rs))"
proof -
  have a: "snd (mapDCTrackRecord L now r) = Some (MissingRequiredField ''id'') \<and>
          snd (dctrack_mapDCTrackRecord L now r) = None \<and>
          ID (fst (dctrack_mapDCTrackRecord L now r)) = ''''"
    if "r ''id'' = None \<or> r ''id'' = Some VNil \<or> r ''id'' = Some (VString '''')"
  proof -
    have "getString L r ''id'' = ''''"
      using getString_absent [where r = r and key = "''id''" and L = L, OF that] .
    then show ?thesis
      by (simp add: mapDCTrackRecord_def validate_item_def fill_item_required dctrack_map_fields Let_def)
  qed
  have b: "getString L r ''id'' \<noteq> '''' \<and> getString L r ''tiName'' \<noteq> '''' \<and>
      getString L r ''tiClass'' \<noteq> '''' \<and> getString L r ''cmbStatus'' \<noteq> '''' \<and>
      getString L r ''cmbLocation'' \<noteq> ''''"
    if "snd (mapDCTrackRecord L now r) = None"
    using that
    by (simp add: mapDCTrackRecord_def validate_item_def fill_item_required Let_def split: if_splits)
  have c: "map_records L now rs = map fst (filter (\<lambda>p. snd p = None) (map (mapDCTrackRecord L now) rs))"
    by (rule map_records_filter)
  have A: "r ''id'' = None \<or> r ''id'' = Some VNil \<or> r ''id'' = Some (VString '''')
      \<longrightarrow> snd (mapDCTrackRecord L now r) = Some (MissingRequiredField ''id'') \<and>
          snd (dctrack_mapDCTrackRecord L now r) = None \<and>
          ID (fst (dctrack_mapDCTrackRecord L now r)) = ''''"
    using a by (rule impI)
  have B: "snd (mapDCTrackRecord L now r) = None \<longrightarrow>
      getString L r ''id'' \<noteq> '''' \<and> getString L r ''tiName'' \<noteq> '''' \<and>
      getString L r ''tiClass'' \<noteq> '''' \<and> getString L r ''cmbStatus'' \<noteq> '''' \<and>
      getString L r ''cmbLocation'' \<noteq> ''''"
    using b by (rule impI)
  show ?thesis by (rule conjI [OF A conjI [OF B c]])
qed

theorem missing_id_policy_witness:
  "snd (mapDCTrackRecord plain_lib 0 no_id_record) = Some (MissingRequiredField ''id'') \<and>
   map_records plain_lib 0 [item_record ''a'', no_id_record, item_record ''b''] =
     [demo_item ''a'', demo_item ''b'']"
proof -
  have n: "(no_id_record :: rat raw_record) ''id'' = None" by (simp add: no_id_record_def)
  from missing_id_policy [where r = no_id_record and L = plain_lib and now = 0
      and rs = "[item_record ''a'', no_id_record, item_record ''b'']"] n
  have a: "snd (mapDCTrackRecord plain_lib 0 no_id_record) = Some (MissingRequiredField ''id'')"
    and b: "map_records plain_lib 0 [item_record ''a'', no_id_record, item_record ''b''] =
      map fst (filter (\<lambda>p. snd p = None)
        (map (mapDCTrackRecord plain_lib 0) [item_record ''a'', no_id_record, item_record ''b'']))"
    by simp_all
  show ?thesis using a b by (simp add: map_item_record demo_item_def)
qed

text \<open>
  Against the wording of C6 (one policy across the implementation): the same record without
  \<^verbatim>\<open>id\<close> is rejected by the mapper of the root package and accepted, with an empty \<open>ID\<close>, by
  the mapper of \<^verbatim>\<open>dctrack/\<close>.
\<close>

theorem missing_id_policy_counterexample:
  "snd (mapDCTrackRecord plain_lib 0 no_id_record) = Some (MissingRequiredField ''id'') \<and>
   snd (dctrack_mapDCTrackRecord plain_lib 0 no_id_record) = None \<and>
   ID (fst (dctrack_mapDCTrackRecord plain_lib 0 no_id_record)) = ''''"
  by (simp add: mapDCTrackRecord_def validate_item_def fill_item_required dctrack_map_fields
      getString_def no_id_record_def Let_def)

lemma getFloat_absent: "r key = None \<or> r key = Some VNil \<Longrightarrow> getFloat L r key = 0"
  by (auto simp: getFloat_def)

lemma dctrack_getFloat_absent: "r key = None \<or> r key = Some VNil \<Longrightarrow> dctrack_getFloat L r key = 0"
  by (auto simp: dctrack_getFloat_def)

lemma getFloat_unparsed: "r key = Some v \<Longrightarrow> sscanf_f L (Sprintf_v L v) = None \<Longrightarrow> getFloat L r key = 0"
  by (simp add: getFloat_def Let_def)

lemma dctrack_getFloat_unparsed:
  "r key = Some v \<Longrightarrow> ParseFloat L (Sprintf_v L v) = None \<Longrightarrow> dctrack_getFloat L r key = 0"
  by (simp add: dctrack_getFloat_def Let_def)

lemma getFloat_parsed:
  "r key = Some (VString s) \<Longrightarrow> s \<noteq> '''' \<Longrightarrow> s \<noteq> ''null'' \<Longrightarrow> sscanf_f L s = Some x
     \<Longrightarrow> getFloat L r key = x"
  by (simp add: getFloat_def Sprintf_v_def Let_def)

lemma dctrack_getFloat_parsed:
  "r key = Some (VString s) \<Longrightarrow> s \<noteq> '''' \<Longrightarrow> s \<noteq> ''null'' \<Longrightarrow> ParseFloat L s = Some x
     \<Longrightarrow> dctrack_getFloat L r key = x"
  by (simp add: dctrack_getFloat_def Sprintf_v_def Let_def)

text \<open>
  Claim C7, as the code has it. \<open>getFloat\<close> yields 0 for an absent or null value and for a
  value whose text the parser rejects (\<^verbatim>\<open>fmt.Sscanf\<close> with \<^verbatim>\<open>%f\<close> in the root package,
  \<^verbatim>\<open>strconv.ParseFloat\<close> in \<^verbatim>\<open>dctrack/\<close>), and the parsed number for a string that is
  parsed. The mappers read the DCTrack wire names: a record with \<^verbatim>\<open>id\<close> \<open>t1\<close>,
  \<^verbatim>\<open>tiName\<close> \<open>Server1\<close> and \<^verbatim>\<open>tiItemOriginalPower\<close> \<open>500.5\<close> gives an item with \<open>ID\<close>
  \<open>t1\<close> and \<open>OriginalPower\<close> the number parsed from \<open>500.5\<close>; in the root package it is
  returned without error when \<^verbatim>\<open>tiClass\<close>, \<^verbatim>\<open>cmbStatus\<close> and \<^verbatim>\<open>cmbLocation\<close> are non-empty
  as well.
\<close>

theorem float_coercion:
  "(r key = None \<or> r key = Some VNil \<longrightarrow> getFloat L r key = 0 \<and> dctrack_getFloat L r key = 0) \<and>
   (\<forall>v. r key = Some v \<and> sscanf_f L (Sprintf_v L v) = None \<longrightarrow> getFloat L r key = 0) \<and>
   (\<forall>v. r key = Some v \<and> ParseFloat L (Sprintf_v L v) = None \<longrightarrow> dctrack_getFloat L r key = 0) \<and>
   (\<forall>s x. r key = Some (VString s) \<and> s \<noteq> '''' \<and> s \<noteq> ''null'' \<and> sscanf_f L s = Some x
      \<longrightarrow> getFloat L r key = x) \<and>
   (\<forall>s x. r key = Some (VString s) \<and> s \<noteq> '''' \<and> s \<noteq> ''null'' \<and> ParseFloat L s = Some x
      \<longrightarrow> dctrack_getFloat L r key = x) \<and>
   (\<forall>x. r ''id'' = Some (VString ''t1'') \<and> r ''tiName'' = Some (VString ''Server1'') \<and>
        r ''tiItemOriginalPower'' = Some (VString ''500.5'') \<and> sscanf_f L ''500.5'' = Some x
      \<longrightarrow> ID (fst (mapDCTrackRecord L now r)) = ''t1'' \<and>
          OriginalPower (fst (mapDCTrackRecord L now r)) = x \<and>
          (getString L r ''tiClass'' \<noteq> '''' \<and> getString L r ''cmbStatus'' \<noteq> '''' \<and>
           getString L r ''cmbLocation'' \<noteq> '''' \<longrightarrow> snd (mapDCTrackRecord L now r) = None)) \<and>
   (\<forall>x. r ''id'' = Some (VString ''t1'') \<and> r ''tiName'' = Some (VString ''Server1'') \<and>
        r ''tiItemOriginalPower'' = Some (VString ''500.5'') \<and> ParseFloat L ''500.5'' = Some x
      \<longrightarrow> dctrack_mapDCTrackRecord L now r = (fst (dctrack_mapDCTrackRecord L now r), None) \<and>
          ID (fst (dctrack_mapDCTrackRecord L now r)) = ''t1'' \<and>
          OriginalPower (fst (dctrack_mapDCTrackRecord L now r)) = x)"
proof -
  have root: "ID (fst (mapDCTrackRecord L now r)) = ''t1'' \<and>
          OriginalPower (fst (mapDCTrackRecord L now r)) = x \<and>
          (getString L r ''tiClass'' \<noteq> '''' \<and> getString L r ''cmbStatus'' \<noteq> '''' \<and>
           getString L r ''cmbLocation'' \<noteq> '''' \<longrightarrow> snd (mapDCTrackRecord L now r) = None)"
    if "r ''id'' = Some (VString ''t1'')" "r ''tiName'' = Some (VString ''Server1'')"
      "r ''tiItemOriginalPower'' = Some (VString ''500.5'')" "sscanf_f L ''500.5'' = Some x" for x
    using getString_VString [where r = r and key = "''id''" and L = L, OF that(1)]
      getString_VString [where r = r and key = "''tiName''" and L = L, OF that(2)]
      getFloat_parsed [where r = r and key = "''tiItemOriginalPower''", OF that(3) _ _ that(4)]
    by (simp add: mapDCTrackRecord_def validate_item_def fill_item_required Let_def)
  have sub: "dctrack_mapDCTrackRecord L now r = (fst (dctrack_mapDCTrackRecord L now r), None) \<and>
          ID (fst (dctrack_mapDCTrackRecord L now r)) = ''t1'' \<and>
          OriginalPower (fst (dctrack_mapDCTrackRecord L now r)) = x"
    if "r ''id'' = Some (VString ''t1'')" "r ''tiName'' = Some (VString ''Server1'')"
      "r ''tiItemOriginalPower'' = Some (VString ''500.5'')" "ParseFloat L ''500.5'' = Some x" for x
    using getString_VString [where r = r and key = "''id''" and L = L, OF that(1)]
      dctrack_getFloat_parsed [where r = r and key = "''tiItemOriginalPower''", OF that(3) _ _ that(4)]
      dctrack_map_fields(1) [of L now r]
    by (simp add: dctrack_map_fields(2,4) prod_eq_iff)
  have h1: "r key = None \<or> r key = Some VNil \<longrightarrow> getFloat L r key = 0 \<and> dctrack_getFloat L r key = 0"
    using getFloat_absent [where r = r and key = key and L = L]
      dctrack_getFloat_absent [where r = r and key = key and L = L] by blast
  have h2: "\<forall>v. r key = Some v \<and> sscanf_f L (Sprintf_v L v) = None \<longrightarrow> getFloat L r key = 0"
    using getFloat_unparsed [where r = r and key = key and L = L] by blast
  have h3: "\<forall>v. r key = Some v \<and> ParseFloat L (Sprintf_v L v) = None \<longrightarrow> dctrack_getFloat L r key = 0"
    using dctrack_getFloat_unparsed [where r = r and key = key and L = L] by blast
  have h4: "\<forall>s x. r key = Some (VString s) \<and> s \<noteq> '''' \<and> s \<noteq> ''null'' \<and> sscanf_f L s = Some x
      \<longrightarrow> getFloat L r key = x"
    using getFloat_parsed [where r = r and key = key and L = L] by blast
  have h5: "\<forall>s x. r key = Some (VString s) \<and> s \<noteq> '''' \<and> s \<noteq> ''null'' \<and> ParseFloat L s = Some x
      \<longrightarrow> dctrack_getFloat L r key = x"
    using dctrack_getFloat_parsed [where r = r and key = key and L = L] by blast
  show ?thesis
    using h1 h2 h3 h4 h5 root sub by blast
qed

lemma read_decimal_500_5: "read_decimal ''500.5'' = Some (1001 / 2)"
  by (simp add: read_decimal_def read_unsigned_decimal_def read_nat_def digit_def)

theorem float_coercion_witness:
  "mapDCTrackRecord plain_lib 0 power_record = (fst (mapDCTrackRecord plain_lib 0 power_record), None) \<and>
   ID (fst (mapDCTrackRecord plain_lib 0 power_record)) = ''t1'' \<and>
   OriginalPower (fst (mapDCTrackRecord plain_lib 0 power_record)) = 1001 / 2 \<and>
   OriginalPower (fst (dctrack_mapDCTrackRecord plain_lib 0 power_record)) = 1001 / 2 \<and>
   getFloat plain_lib power_record ''tiEffectivePower'' = 0"
proof -
  have k: "(power_record :: rat raw_record) ''id'' = Some (VString ''t1'')"
    "(power_record :: rat raw_record) ''tiName'' = Some (VString ''Server1'')"
    "(power_record :: rat raw_record) ''tiItemOriginalPower'' = Some (VString ''500.5'')"
    "(power_record :: rat raw_record) ''tiEffectivePower'' = None"
    by (simp_all add: power_record_def)
  have p: "sscanf_f plain_lib ''500.5'' = Some (1001 / 2)" "ParseFloat plain_lib ''500.5'' = Some (1001 / 2)"
    by (simp_all add: plain_lib_def read_decimal_500_5)
  have g: "getString plain_lib power_record ''tiClass'' \<noteq> ''''"
    "getString plain_lib power_record ''cmbStatus'' \<noteq> ''''"
    "getString plain_lib power_record ''cmbLocation'' \<noteq> ''''"
    by (simp_all add: getString_def power_record_def Sprintf_v_def)
  note t = float_coercion [where r = power_record and L = plain_lib and now = 0 and key = "''tiEffectivePower''"]
  have a: "ID (fst (mapDCTrackRecord plain_lib 0 power_record)) = ''t1'' \<and>
          OriginalPower (fst (mapDCTrackRecord plain_lib 0 power_record)) = 1001 / 2 \<and>
          snd (mapDCTrackRecord plain_lib 0 power_record) = None"
    using t k p g by blast
  have b: "OriginalPower (fst (dctrack_mapDCTrackRecord plain_lib 0 power_record)) = 1001 / 2"
    using t k p by blast
  have c: "getFloat plain_lib power_record ''tiEffectivePower'' = 0"
    using t k by blast
  show ?thesis using a b c by (simp add: prod_eq_iff)
qed

text \<open>
  Against the wording of C7: the record with the keys \<^verbatim>\<open>id\<close>, \<^verbatim>\<open>name\<close> and \<^verbatim>\<open>power\<close> is
  rejected by the root package for its missing \<^verbatim>\<open>tiName\<close>, and in both packages the power
  of the item is 0, since no mapper reads the key \<^verbatim>\<open>power\<close>.
\<close>

theorem float_coercion_counterexample:
  "mapDCTrackRecord plain_lib 0 spec_record =
     (fst (mapDCTrackRecord plain_lib 0 spec_record), Some (MissingRequiredField ''tiName'')) \<and>
   OriginalPower (fst (mapDCTrackRecord plain_lib 0 spec_record)) = 0 \<and>
   OriginalPower (fst (dctrack_mapDCTrackRecord plain_lib 0 spec_record)) = 0"
  by (simp add: mapDCTrackRecord_def validate_item_def fill_item_required dctrack_map_fields
      getString_def getFloat_def dctrack_getFloat_def spec_record_def Sprintf_v_def Let_def)


subsection \<open>The two envelopes\<close>

lemma plain_lib_simps:
  "url_ok plain_lib b q"
  "json_int plain_lib = read_integer"
  "time_Now plain_lib t = t"
  by (simp_all add: plain_lib_def)

lemma read_integer_digit:
  "read_integer ''1'' = Some 1" "read_integer ''2'' = Some 2" "read_integer ''3'' = Some 3"
  "read_integer ''4'' = Some 4" "read_integer ''9'' = Some 9"
  by (simp_all add: read_integer_def read_nat_def digit_def)

lemma equal_fold_keys:
  "equal_fold ''totalRows'' ''totalRows''"
  "\<not> equal_fold ''pageNumber'' ''totalRows''"
  "equal_fold ''pageNumber'' ''pageNumber''"
  "\<not> equal_fold ''pageSize'' ''totalRows''"
  "\<not> equal_fold ''pageSize'' ''pageNumber''"
  "equal_fold ''pageSize'' ''pageSize''"
  "\<not> equal_fold ''searchResults'' ''totalRows''"
  "\<not> equal_fold ''searchResults'' ''pageNumber''"
  "\<not> equal_fold ''searchResults'' ''pageSize''"
  "equal_fold ''searchResults'' ''searchResults''"
  "equal_fold ''items'' ''items''"
  "\<not> equal_fold ''records'' ''totalRows''"
  "\<not> equal_fold ''records'' ''pageNumber''"
  "\<not> equal_fold ''records'' ''pageSize''"
  "\<not> equal_fold ''records'' ''searchResults''"
  "equal_fold ''records'' ''records''"
  "\<not> equal_fold ''totalRows'' ''records''"
  "\<not> equal_fold ''pageNumber'' ''records''"
  "\<not> equal_fold ''pageSize'' ''records''"
  "\<not> equal_fold ''searchResults'' ''records''"
  by (simp_all add: equal_fold_def to_lower_def)

lemma Unmarshal_shape_B:
  "Unmarshal L (shape_B t n m xs) =
     (case json_int L t of
        None \<Rightarrow> None
      | Some a \<Rightarrow>
          (case json_int L n of
             None \<Rightarrow> None
           | Some b \<Rightarrow>
               (case json_int L m of
                  None \<Rightarrow> None
                | Some c \<Rightarrow>
                    (case decode_records L xs of
                       None \<Rightarrow> None
                     | Some rs \<Rightarrow>
                         Some \<lparr>TotalRows = a, PageNumber_r = b, PageSize_r = c,
                               SearchResults_Items = rs\<rparr>))))"
  by (simp add: Unmarshal_def shape_B_def equal_fold_keys decode_int_def decode_SearchResults_def
      decode_slice_def split: option.splits)

lemma Unmarshal_shape_A:
  "Unmarshal L (shape_A xs) =
     Some \<lparr>TotalRows = 0, PageNumber_r = 0, PageSize_r = 0, SearchResults_Items = []\<rparr>"
  by (simp add: Unmarshal_def shape_A_def equal_fold_keys)

lemma dctrack_Unmarshal_shape_A: "dctrack_Unmarshal L (shape_A xs) = decode_records L xs"
  by (simp add: dctrack_Unmarshal_def shape_A_def equal_fold_keys decode_slice_def split: option.splits)

lemma dctrack_Unmarshal_shape_B: "dctrack_Unmarshal L (shape_B t n m xs) = Some []"
  by (simp add: dctrack_Unmarshal_def shape_B_def equal_fold_keys)


subsection \<open>The page loop\<close>

lemma pages_loop_Suc_cases:
  assumes "pages_loop (Suc n) L ep cx c params N page acc w = (res, w', vis)"
    and "fetchPage L ep cx c (ItemsRequest (URL (config c)) page N (query_string params) (token c)) w
           = ((items, err), w1)"
  shows "if continues params N (page, items, err)
         then \<exists>vis'. vis = (page, items, err) # vis' \<and>
                pages_loop n L ep cx c params N (page + 1) (acc @ items) w1 = (res, w', vis')
         else vis = [(page, items, err)] \<and> w' = w1 \<and> res = Some (outcome acc vis)"
  using assms
  by (auto simp: continues_def full_page_def outcome_def split: option.splits if_splits prod.splits)

lemma pages_loop_shape:
  "pages_loop fuel L ep cx c params N page acc w = (res, w', vis) \<Longrightarrow>
     length vis \<le> fuel \<and>
     (\<forall>i < length vis. fst (vis ! i) = page + int i) \<and>
     (\<forall>i. Suc i < length vis \<longrightarrow> continues params N (vis ! i)) \<and>
     (case res of
        None \<Rightarrow> length vis = fuel \<and> (\<forall>i < length vis. continues params N (vis ! i))
      | Some r \<Rightarrow> vis \<noteq> [] \<and> \<not> continues params N (last vis) \<and> r = outcome acc vis)"
proof (induction fuel arbitrary: page acc w res w' vis)
  case 0
  then show ?case by auto
next
  case (Suc n)
  let ?req = "ItemsRequest (URL (config c)) page N (query_string params) (token c)"
  obtain items err w1 where f: "fetchPage L ep cx c ?req w = ((items, err), w1)"
    by (metis surj_pair)
  show ?case
  proof (cases "continues params N (page, items, err)")
    case False
    then have "vis = [(page, items, err)] \<and> w' = w1 \<and> res = Some (outcome acc vis)"
      using pages_loop_Suc_cases [OF Suc.prems f] by simp
    then show ?thesis using False by auto
  next
    case True
    then obtain vis' where v: "vis = (page, items, err) # vis'"
      and r: "pages_loop n L ep cx c params N (page + 1) (acc @ items) w1 = (res, w', vis')"
      using pages_loop_Suc_cases [OF Suc.prems f] by auto
    note IH = Suc.IH [OF r]
    have err: "err = None" using True by (simp add: continues_def full_page_def)
    have a: "length vis \<le> Suc n" using IH v by simp
    have b: "\<forall>i < length vis. fst (vis ! i) = page + int i"
    proof (intro allI impI)
      fix i assume "i < length vis"
      then show "fst (vis ! i) = page + int i"
        using IH v by (cases i) auto
    qed
    have c: "\<forall>i. Suc i < length vis \<longrightarrow> continues params N (vis ! i)"
    proof (intro allI impI)
      fix i assume "Suc i < length vis"
      then show "continues params N (vis ! i)"
        using IH v True by (cases i) auto
    qed
    have d: "case res of
        None \<Rightarrow> length vis = Suc n \<and> (\<forall>i < length vis. continues params N (vis ! i))
      | Some r \<Rightarrow> vis \<noteq> [] \<and> \<not> continues params N (last vis) \<and> r = outcome acc vis"
    proof (cases res)
      case None
      then have n: "length vis' = n" "\<forall>i < length vis'. continues params N (vis' ! i)"
        using IH by auto
      have "\<forall>i < length vis. continues params N (vis ! i)"
      proof (intro allI impI)
        fix i assume "i < length vis"
        then show "continues params N (vis ! i)"
          using n v True by (cases i) auto
      qed
      then show ?thesis using None n v by simp
    next
      case (Some r)
      then have s: "vis' \<noteq> []" "\<not> continues params N (last vis')" "r = outcome (acc @ items) vis'"
        using IH by auto
      have "outcome (acc @ items) vis' = outcome acc vis"
        using s(1) v by (simp add: outcome_def split: option.splits)
      then show ?thesis using Some s v by simp
    qed
    show ?thesis using a b c d by blast
  qed
qed

lemma GetItemsWithParams_cases:
  assumes "GetItemsWithParams fuel L ep cx c params w = (res, c1, w', vis)"
    and "login L ep cx c w = ((c2, err), w1)"
  shows "c1 = c2 \<and>
         (case err of
            Some e \<Rightarrow> res = Some ([], Some (AuthenticationFailed e)) \<and> vis = [] \<and> w' = w1
          | None \<Rightarrow> pages_loop fuel L ep cx c1 params (page_size c1 params) (first_page params) [] w1
                      = (res, w', vis))"
  using assms
  by (auto simp: GetItemsWithParams_def split: option.splits prod.splits)

lemma GetItemsWithParams_shape:
  assumes "GetItemsWithParams fuel L ep cx c params w = (res, c1, w', vis)"
  shows "length vis \<le> fuel \<and>
     (\<forall>i < length vis. fst (vis ! i) = first_page params + int i) \<and>
     (\<forall>i. Suc i < length vis \<longrightarrow> continues params (page_size c1 params) (vis ! i)) \<and>
     (vis \<noteq> [] \<longrightarrow>
       (case res of
          None \<Rightarrow> length vis = fuel \<and> (\<forall>i < length vis. continues params (page_size c1 params) (vis ! i))
        | Some r \<Rightarrow> \<not> continues params (page_size c1 params) (last vis) \<and> r = outcome [] vis))"
proof -
  obtain c2 err w1 where l: "login L ep cx c w = ((c2, err), w1)" by (metis surj_pair)
  note g = GetItemsWithParams_cases [OF assms l]
  show ?thesis
  proof (cases err)
    case (Some e)
    then show ?thesis using g by simp
  next
    case None
    then have "pages_loop fuel L ep cx c1 params (page_size c1 params) (first_page params) [] w1
                 = (res, w', vis)"
      using g by auto
    from pages_loop_shape [OF this] show ?thesis by (auto split: option.splits)
  qed
qed

lemma login_failed_result:
  assumes "GetItemsWithParams fuel L ep cx c params w = (res, c1, w', vis)"
    and "snd (fst (login L ep cx c w)) = Some e"
  shows "res = Some ([], Some (AuthenticationFailed e)) \<and> vis = []"
proof -
  obtain c2 err w1 where l: "login L ep cx c w = ((c2, err), w1)" by (metis surj_pair)
  then have "err = Some e" using assms(2) by simp
  then show ?thesis using GetItemsWithParams_cases [OF assms(1) l] by simp
qed

lemma login_ok_visits:
  assumes "GetItemsWithParams fuel L ep cx c params w = (res, c1, w', vis)"
    and "snd (fst (login L ep cx c w)) = None"
    and "0 < fuel"
  shows "vis \<noteq> []"
proof -
  obtain c2 err w1 where l: "login L ep cx c w = ((c2, err), w1)" by (metis surj_pair)
  then have "err = None" using assms(2) by simp
  then have p: "pages_loop fuel L ep cx c1 params (page_size c1 params) (first_page params) [] w1
                 = (res, w', vis)"
    using GetItemsWithParams_cases [OF assms(1) l] by auto
  obtain n where n: "fuel = Suc n" using assms(3) by (cases fuel) auto
  let ?req = "ItemsRequest (URL (config c1)) (first_page params) (page_size c1 params) (query_string params) (token c1)"
  obtain items e w2 where f: "fetchPage L ep cx c1 ?req w1 = ((items, e), w2)" by (metis surj_pair)
  from pages_loop_Suc_cases [OF p [unfolded n] f] show ?thesis
    by (auto split: if_splits)
qed

lemma short_not_continues: "short_page N v \<Longrightarrow> \<not> continues params N v"
  by (auto simp: short_page_def continues_def full_page_def)


subsection \<open>Runs of the client against fixed services\<close>

lemmas run_simps =
  GetItemsWithParams_def login_def fetchPage_def fetchPage_loop.simps Do_def ctx_done_def
  time_Sleep_def demo_client_def demo_config_def start_world_def all_pages_def
  page_size_def first_page_def query_string_def plain_lib_simps read_integer_digit
  Unmarshal_shape_B Unmarshal_shape_A decode_item_json map_item_record demo_item_def
  login_request_def demo_request_def Let_def

lemma two_pages_run:
  "GetItemsWithParams 5 plain_lib two_pages None demo_client all_pages start_world =
     (Some ([demo_item ''a'', demo_item ''b'', demo_item ''c'', demo_item ''d''], None),
      demo_client,
      \<lparr>clock = 0, served = 4,
        events = [Attempt login_request, Attempt (demo_request 1), Attempt (demo_request 2),
                  Attempt (demo_request 3)]\<rparr>,
      [(1, [demo_item ''a'', demo_item ''b''], None),
       (2, [demo_item ''c'', demo_item ''d''], None),
       (3, [], None)])"
  by (simp add: eval_nat_numeral run_simps two_pages_def)

lemma one_page_then_500_run:
  "GetItemsWithParams 5 plain_lib one_page_then_500 None demo_client all_pages start_world =
     (Some ([], Some (AllRetriesFailed (Some (RequestFailedStatus 500)))),
      demo_client,
      \<lparr>clock = 20, served = 5,
        events = [Attempt login_request, Attempt (demo_request 1), Attempt (demo_request 2),
                  Sleep 10, Attempt (demo_request 2), Sleep 10, Attempt (demo_request 2)]\<rparr>,
      [(1, [demo_item ''a'', demo_item ''b''], None),
       (2, [], Some (AllRetriesFailed (Some (RequestFailedStatus 500))))])"
  by (simp add: eval_nat_numeral run_simps one_page_then_500_def)

lemma records_endpoint_run:
  "GetItemsWithParams 5 plain_lib records_endpoint None demo_client all_pages start_world =
     (Some ([], None),
      demo_client,
      \<lparr>clock = 0, served = 2, events = [Attempt login_request, Attempt (demo_request 1)]\<rparr>,
      [(1, [], None)])"
  by (simp add: eval_nat_numeral run_simps records_endpoint_def)

lemma explicit_page_run:
  "GetItemsWithParams 5 plain_lib two_pages None demo_client explicit_page start_world =
     (Some ([demo_item ''c'', demo_item ''d''], None),
      demo_client,
      \<lparr>clock = 0, served = 2, events = [Attempt login_request, Attempt (demo_request 2)]\<rparr>,
      [(2, [demo_item ''c'', demo_item ''d''], None)])"
  by (simp add: eval_nat_numeral run_simps two_pages_def explicit_page_def)

lemma bad_record_fetch:
  "fetchPage plain_lib page_with_bad_record None demo_client (demo_request 1) start_world =
     (([demo_item ''a''], None), \<lparr>clock = 0, served = 1, events = [Attempt (demo_request 1)]\<rparr>)"
  by (simp add: run_simps page_with_bad_record_def)

lemma bad_record_loop:
  "pages_loop (Suc 4) plain_lib page_with_bad_record None demo_client all_pages 2 1 [] start_world =
     (Some ([demo_item ''a''], None),
      \<lparr>clock = 0, served = 1, events = [Attempt (demo_request 1)]\<rparr>,
      [(1, [demo_item ''a''], None)])"
  using bad_record_fetch
  by (subst pages_loop.simps(2))
     (simp add: demo_request_def demo_client_def demo_config_def all_pages_def query_string_def Let_def)


subsection \<open>Claims about the page loop\<close>

text \<open>
  Claim C1. The visits of a run are its calls of \<open>fetchPage\<close>, in order, and \<open>N\<close> is the page
  size in force. A visit that yields fewer than \<open>N\<close> items, or none, is the last one. With an
  explicit page number (\<open>PageNumber > 0\<close>) at most one page is requested, and exactly that
  page once login has succeeded. Without one, a visit that yields at least \<open>N\<close> items is
  followed by a visit of the next page number (in the model: unless the bound on the number
  of pages is reached, and then the run has no result). A visit sends at least one request
  for its page when \<open>MaxRetries\<close> is at least 1, as it is in a client built by \<open>NewClient\<close>.
\<close>

theorem GetItemsWithParams_page_requests:
  assumes "GetItemsWithParams fuel L ep cx c params w = (res, c1, w', vis)"
  shows "(\<forall>i < length vis. short_page (page_size c1 params) (vis ! i) \<longrightarrow> Suc i = length vis) \<and>
         (0 < PageNumber params \<longrightarrow>
            length vis \<le> 1 \<and>
            (0 < fuel \<and> snd (fst (login L ep cx c w)) = None \<longrightarrow> map fst vis = [PageNumber params])) \<and>
         (\<forall>i < length vis.
            \<not> 0 < PageNumber params \<and> full_page (page_size c1 params) (vis ! i) \<longrightarrow>
              (Suc i < length vis \<and> fst (vis ! Suc i) = fst (vis ! i) + 1) \<or>
              (Suc i = fuel \<and> res = None))"
proof -
  let ?N = "page_size c1 params"
  note sh = GetItemsWithParams_shape [OF assms]
  have a: "\<forall>i < length vis. short_page ?N (vis ! i) \<longrightarrow> Suc i = length vis"
  proof (intro allI impI)
    fix i assume i: "i < length vis" and s: "short_page ?N (vis ! i)"
    have "\<not> Suc i < length vis" using sh s short_not_continues by blast
    then show "Suc i = length vis" using i by simp
  qed
  have b: "0 < PageNumber params \<longrightarrow>
            length vis \<le> 1 \<and>
            (0 < fuel \<and> snd (fst (login L ep cx c w)) = None \<longrightarrow> map fst vis = [PageNumber params])"
  proof
    assume p: "0 < PageNumber params"
    have "\<not> Suc 0 < length vis"
      using sh p by (auto simp: continues_def)
    then have le: "length vis \<le> 1" by simp
    have "map fst vis = [PageNumber params]"
      if "0 < fuel" "snd (fst (login L ep cx c w)) = None"
    proof -
      have "vis \<noteq> []" using login_ok_visits [OF assms that(2) that(1)] .
      then obtain v where v: "vis = [v]" using le by (cases vis) auto
      have "fst (vis ! 0) = first_page params + int 0" using sh v by simp
      then show ?thesis using v p by (simp add: first_page_def)
    qed
    then show "length vis \<le> 1 \<and>
            (0 < fuel \<and> snd (fst (login L ep cx c w)) = None \<longrightarrow> map fst vis = [PageNumber params])"
      using le by blast
  qed
  have c: "\<forall>i < length vis.
            \<not> 0 < PageNumber params \<and> full_page ?N (vis ! i) \<longrightarrow>
              (Suc i < length vis \<and> fst (vis ! Suc i) = fst (vis ! i) + 1) \<or>
              (Suc i = fuel \<and> res = None)"
  proof (intro allI impI)
    fix i assume i: "i < length vis" and f: "\<not> 0 < PageNumber params \<and> full_page ?N (vis ! i)"
    then have ct: "continues params ?N (vis ! i)" by (simp add: continues_def)
    show "(Suc i < length vis \<and> fst (vis ! Suc i) = fst (vis ! i) + 1) \<or> (Suc i = fuel \<and> res = None)"
    proof (cases "Suc i < length vis")
      case True
      then have "fst (vis ! Suc i) = first_page params + int (Suc i)"
        and "fst (vis ! i) = first_page params + int i"
        using sh i by auto
      then show ?thesis using True by simp
    next
      case False
      then have l: "Suc i = length vis" using i by simp
      then have ne: "vis \<noteq> []" by auto
      moreover have "i = length vis - 1" using l by simp
      ultimately have la: "last vis = vis ! i" by (simp add: last_conv_nth)
      have "res = None"
      proof (cases res)
        case (Some r)
        then have "\<not> continues params ?N (last vis)" using sh ne by simp
        then show ?thesis using la ct by simp
      qed simp
      moreover have "length vis = fuel" using sh ne \<open>res = None\<close> by simp
      ultimately show ?thesis using l by simp
    qed
  qed
  show ?thesis using a b c by blast
qed

theorem GetItemsWithParams_page_requests_witness:
  "(\<exists>res c1 w' vis.
      GetItemsWithParams 5 plain_lib two_pages None demo_client all_pages start_world = (res, c1, w', vis) \<and>
      map fst vis = [1, 2, 3] \<and> full_page 2 (vis ! 0) \<and> full_page 2 (vis ! 1) \<and> short_page 2 (vis ! 2)) \<and>
   (\<exists>res c1 w' vis.
      GetItemsWithParams 5 plain_lib two_pages None demo_client explicit_page start_world = (res, c1, w', vis) \<and>
      map fst vis = [2] \<and> full_page 2 (vis ! 0))"
proof -
  let ?vis = "[(1, [demo_item ''a'', demo_item ''b''], None),
       (2, [demo_item ''c'', demo_item ''d''], None),
       (3::int, [], None::error option)]"
  have f: "full_page 2 (?vis ! 0)" "full_page 2 (?vis ! 1)" "short_page 2 (?vis ! 2)"
    by (simp_all add: full_page_def short_page_def)
  have N: "page_size demo_client all_pages = 2" "\<not> 0 < PageNumber all_pages"
    by (simp_all add: page_size_def all_pages_def demo_client_def demo_config_def)
  from GetItemsWithParams_page_requests [OF two_pages_run] N f
  have "fst (?vis ! Suc 0) = fst (?vis ! 0) + 1 \<and> fst (?vis ! Suc 1) = fst (?vis ! 1) + 1"
    by simp
  then have a: "map fst ?vis = [1, 2, 3]" by simp
  have e: "0 < PageNumber explicit_page" by (simp add: explicit_page_def)
  have l: "snd (fst (login plain_lib two_pages None demo_client start_world)) = None"
    by (simp add: login_def Do_def ctx_done_def two_pages_def plain_lib_simps Let_def)
  from GetItemsWithParams_page_requests [OF explicit_page_run] e l
  have b: "map fst [(2::int, [demo_item ''c'', demo_item ''d''], None::error option)] = [PageNumber explicit_page]"
    by simp
  have g: "full_page 2 ([(2::int, [demo_item ''c'', demo_item ''d''], None::error option)] ! 0)"
    by (simp add: full_page_def)
  show ?thesis
    using two_pages_run explicit_page_run a b f g by (simp add: explicit_page_def)
qed

text \<open>
  Claim C5. If any call of \<open>fetchPage\<close> in a run returns an error, the run returns that error
  together with the empty sequence; whenever the operation returns an error, it returns no
  items. What earlier pages yielded is not returned.
\<close>

theorem GetItemsWithParams_all_or_nothing:
  assumes "GetItemsWithParams fuel L ep cx c params w = (res, c1, w', vis)"
  shows "(\<forall>p items e. (p, items, Some e) \<in> set vis \<longrightarrow> res = Some ([], Some e)) \<and>
         (\<forall>items e. res = Some (items, Some e) \<longrightarrow> items = [])"
proof -
  let ?N = "page_size c1 params"
  note sh = GetItemsWithParams_shape [OF assms]
  have a: "res = Some ([], Some e)" if m: "(p, items, Some e) \<in> set vis" for p items e
  proof -
    obtain i where i: "i < length vis" "vis ! i = (p, items, Some e)"
      using m by (auto simp: in_set_conv_nth)
    have nc: "\<not> continues params ?N (vis ! i)"
      using i by (simp add: continues_def full_page_def)
    then have "\<not> Suc i < length vis" using sh by blast
    then have l: "Suc i = length vis" using i by simp
    then have ne: "vis \<noteq> []" by auto
    moreover have "i = length vis - 1" using l by simp
      ultimately have la: "last vis = vis ! i" by (simp add: last_conv_nth)
    show ?thesis
    proof (cases res)
      case None
      then show ?thesis using sh ne nc i by auto
    next
      case (Some r)
      then have "r = outcome [] vis" using sh ne by simp
      then show ?thesis using Some la i by (simp add: outcome_def)
    qed
  qed
  have b: "items = []" if r: "res = Some (items, Some e)" for items e
  proof (cases "vis = []")
    case True
    obtain c2 err w1 where l: "login L ep cx c w = ((c2, err), w1)" by (metis surj_pair)
    show ?thesis
    proof (cases err)
      case None
      then have "pages_loop fuel L ep cx c1 params ?N (first_page params) [] w1 = (res, w', vis)"
        using GetItemsWithParams_cases [OF assms l] by auto
      from pages_loop_shape [OF this] r True show ?thesis by simp
    next
      case (Some e')
      then show ?thesis using GetItemsWithParams_cases [OF assms l] r by simp
    qed
  next
    case False
    then have "(items, Some e) = outcome [] vis" using sh r by simp
    then show ?thesis by (auto simp: outcome_def split: option.splits)
  qed
  show ?thesis using a b by blast
qed

theorem GetItemsWithParams_all_or_nothing_witness:
  "\<exists>c1 w' vis.
     GetItemsWithParams 5 plain_lib one_page_then_500 None demo_client all_pages start_world
       = (Some ([], Some (AllRetriesFailed (Some (RequestFailedStatus 500)))), c1, w', vis) \<and>
     (1, [demo_item ''a'', demo_item ''b''], None) \<in> set vis \<and>
     (2, [], Some (AllRetriesFailed (Some (RequestFailedStatus 500)))) \<in> set vis"
proof -
  let ?e = "AllRetriesFailed (Some (RequestFailedStatus 500))"
  obtain res c1 w' vis where
    run: "GetItemsWithParams 5 plain_lib one_page_then_500 None demo_client all_pages start_world
            = (res, c1, w', vis)"
    by (metis prod_cases4)
  then have vis: "vis = [(1, [demo_item ''a'', demo_item ''b''], None), (2, [], Some ?e)]"
    using one_page_then_500_run by simp
  then have "(2, [], Some ?e) \<in> set vis" by simp
  with GetItemsWithParams_all_or_nothing [OF run] have "res = Some ([], Some ?e)" by blast
  then show ?thesis using run vis by simp
qed

text \<open>
  Claim C9. A successful run returns the concatenation of what its page fetches yielded, in
  the order of the fetches, which is the order of the page numbers; nothing is dropped or
  merged. For pages \<open>[a, b]\<close> and \<open>[c, d]\<close>, followed at most by empty pages, the result is
  \<open>[a, b, c, d]\<close>.
\<close>

theorem GetItemsWithParams_page_order:
  assumes "GetItemsWithParams fuel L ep cx c params w = (Some (items, None), c1, w', vis)"
  shows "items = concat (map (\<lambda>v. fst (snd v)) vis) \<and>
         (\<forall>i < length vis. fst (vis ! i) = first_page params + int i) \<and>
         (\<forall>a b c d rest. map (\<lambda>v. fst (snd v)) vis = [a, b] # [c, d] # rest \<and> concat rest = []
            \<longrightarrow> items = [a, b, c, d])"
proof -
  note sh = GetItemsWithParams_shape [OF assms]
  have ne: "vis \<noteq> []"
  proof -
    obtain c2 err w1 where l: "login L ep cx c w = ((c2, err), w1)" by (metis surj_pair)
    show ?thesis
    proof (cases err)
      case None
      then have "pages_loop fuel L ep cx c1 params (page_size c1 params) (first_page params) [] w1
                   = (Some (items, None), w', vis)"
        using GetItemsWithParams_cases [OF assms l] by auto
      from pages_loop_shape [OF this] show ?thesis by simp
    next
      case (Some e')
      then show ?thesis using GetItemsWithParams_cases [OF assms l] by simp
    qed
  qed
  then have "(items, None) = outcome [] vis" using sh by simp
  then have a: "items = concat (map (\<lambda>v. fst (snd v)) vis)"
    by (auto simp: outcome_def split: option.splits)
  then show ?thesis using sh by auto
qed

theorem GetItemsWithParams_page_order_witness:
  "\<exists>items c1 w' vis.
     GetItemsWithParams 5 plain_lib two_pages None demo_client all_pages start_world
       = (Some (items, None), c1, w', vis) \<and>
     map ID items = [''a'', ''b'', ''c'', ''d''] \<and>
     map (\<lambda>v. map ID (fst (snd v))) vis = [[''a'', ''b''], [''c'', ''d''], []]"
proof -
  obtain items c1 w' vis where
    run: "GetItemsWithParams 5 plain_lib two_pages None demo_client all_pages start_world
            = (Some (items, None), c1, w', vis)"
    and vis: "vis = [(1, [demo_item ''a'', demo_item ''b''], None),
                     (2, [demo_item ''c'', demo_item ''d''], None), (3, [], None)]"
    using two_pages_run by blast
  have "map (\<lambda>v. fst (snd v)) vis =
          [demo_item ''a'', demo_item ''b''] # [demo_item ''c'', demo_item ''d''] # [[]] \<and>
        concat [[]::(rat, int) DCTrackItem list] = []"
    using vis by simp
  with GetItemsWithParams_page_order [OF run]
  have "items = [demo_item ''a'', demo_item ''b'', demo_item ''c'', demo_item ''d'']"
    by simp
  then show ?thesis using run vis by (simp add: ID_demo_item)
qed

text \<open>
  Claim C10. An iteration of the page loop whose \<open>fetchPage\<close> succeeds got a 200 reply whose
  envelope decodes, and its items are the records of the envelope that map without error.
  If the envelope holds exactly \<open>N\<close> records and one of them fails to map, the page yields
  fewer than \<open>N\<close> items, the loop ends with that page without another request, and the
  result is success with the items accumulated so far followed by this page's items.
\<close>

theorem pages_loop_stops_on_skipped_record:
  assumes "pages_loop (Suc n) L ep cx c params N page acc w = (res, w', vis)"
    and "req = ItemsRequest (URL (config c)) page N (query_string params) (token c)"
    and "fetchPage L ep cx c req w = ((items, None), w1)"
  shows "\<exists>w0 h j resp.
           Do ep cx req w0 = (Response 200 h (Document j), w1) \<and>
           Unmarshal L j = Some resp \<and>
           items = map_records L (time_Now L (clock w1)) (SearchResults_Items resp) \<and>
           (int (length (SearchResults_Items resp)) = N \<and>
            (\<exists>r \<in> set (SearchResults_Items resp).
               snd (mapDCTrackRecord L (time_Now L (clock w1)) r) \<noteq> None)
            \<longrightarrow> int (length items) < N \<and>
                res = Some (acc @ items, None) \<and> w' = w1 \<and> vis = [(page, items, None)])"
proof -
  from fetchPage_loop_success [OF assms(3) [unfolded fetchPage_def]]
  obtain w0 h j resp where s: "Do ep cx req w0 = (Response 200 h (Document j), w1)"
      "Unmarshal L j = Some resp"
      "items = map_records L (time_Now L (clock w1)) (SearchResults_Items resp)"
    by blast
  have "int (length items) < N \<and> res = Some (acc @ items, None) \<and> w' = w1 \<and> vis = [(page, items, None)]"
    if n: "int (length (SearchResults_Items resp)) = N"
      and b: "\<exists>r \<in> set (SearchResults_Items resp). snd (mapDCTrackRecord L (time_Now L (clock w1)) r) \<noteq> None"
  proof -
    have lt: "int (length items) < N"
      using b n s(3) length_map_records_skipped by fastforce
    then have "\<not> continues params N (page, items, None)"
      by (simp add: continues_def full_page_def)
    then have "vis = [(page, items, None)] \<and> w' = w1 \<and> res = Some (outcome acc vis)"
      using pages_loop_Suc_cases [OF assms(1) assms(3) [unfolded assms(2)]] by simp
    then show ?thesis using lt by (simp add: outcome_def)
  qed
  then show ?thesis using s by blast
qed

theorem pages_loop_stops_on_skipped_record_witness:
  "\<exists>w1 resp.
     pages_loop (Suc 4) plain_lib page_with_bad_record None demo_client all_pages 2 1 [] start_world =
       (Some ([demo_item ''a''], None), w1, [(1, [demo_item ''a''], None)]) \<and>
     Unmarshal plain_lib (shape_B ''9'' ''1'' ''2'' [item_json ''a'', item_json '''']) = Some resp \<and>
     int (length (SearchResults_Items resp)) = 2 \<and>
     (\<exists>r \<in> set (SearchResults_Items resp). snd (mapDCTrackRecord plain_lib 0 r) \<noteq> None) \<and>
     events w1 = [Attempt (demo_request 1)]"
proof -
  let ?w1 = "\<lparr>clock = 0, served = 1, events = [Attempt (demo_request 1)]\<rparr>"
  let ?doc = "shape_B ''9'' ''1'' ''2'' [item_json ''a'', item_json '''']"
  have rq: "demo_request 1 =
      ItemsRequest (URL (config demo_client)) 1 2 (query_string all_pages) (token demo_client)"
    by (simp add: demo_request_def demo_client_def demo_config_def all_pages_def query_string_def)
  from pages_loop_stops_on_skipped_record [OF bad_record_loop rq bad_record_fetch]
  obtain w0 h j resp where s:
      "Do page_with_bad_record None (demo_request 1) w0 = (Response 200 h (Document j), ?w1)"
      "Unmarshal plain_lib j = Some resp"
      "int (length (SearchResults_Items resp)) = 2 \<and>
         (\<exists>r \<in> set (SearchResults_Items resp).
            snd (mapDCTrackRecord plain_lib (time_Now plain_lib (clock ?w1)) r) \<noteq> None)
       \<longrightarrow> int (length [demo_item ''a'']) < 2 \<and>
           Some ([demo_item ''a''], None) = Some ([] @ [demo_item ''a''], None)"
    by auto
  have j: "j = ?doc"
    using s(1) by (simp add: Do_def ctx_done_def page_with_bad_record_def demo_request_def)
  have u: "Unmarshal plain_lib ?doc =
      Some \<lparr>TotalRows = 9, PageNumber_r = 1, PageSize_r = 2,
            SearchResults_Items = [item_record ''a'', item_record '''']\<rparr>"
    by (simp add: Unmarshal_shape_B plain_lib_simps read_integer_digit decode_item_json)
  then have r: "resp = \<lparr>TotalRows = 9, PageNumber_r = 1, PageSize_r = 2,
            SearchResults_Items = [item_record ''a'', item_record '''']\<rparr>"
    using s(2) j by simp
  have p: "int (length (SearchResults_Items resp)) = 2 \<and>
         (\<exists>r \<in> set (SearchResults_Items resp). snd (mapDCTrackRecord plain_lib 0 r) \<noteq> None)"
    using r by (simp add: map_item_record)
  then have "int (length [demo_item ''a'']) < 2" using s(3) by (simp add: plain_lib_simps)
  then show ?thesis using bad_record_loop u r p by simp
qed


subsection \<open>A Shape A body sent to the root package\<close>

text \<open>
  Claim C3, at the failing input. The \<^verbatim>\<open>DCTrackResponse\<close> of the root package has no
  \<^verbatim>\<open>records\<close> field, so a Shape A body decodes without error to an envelope that holds no
  records, whatever the body carries: the client that is served one record under
  \<^verbatim>\<open>records\<close> returns success with no items. The decoder of the package \<^verbatim>\<open>dctrack/\<close>
  extracts that record from the same body.
\<close>

theorem shape_A_yields_no_items:
  "Unmarshal L (shape_A xs) =
     Some \<lparr>TotalRows = 0, PageNumber_r = 0, PageSize_r = 0, SearchResults_Items = []\<rparr> \<and>
   GetItemsWithParams 5 plain_lib records_endpoint None demo_client all_pages start_world =
     (Some ([], None), demo_client,
      \<lparr>clock = 0, served = 2, events = [Attempt login_request, Attempt (demo_request 1)]\<rparr>,
      [(1, [], None)]) \<and>
   dctrack_Unmarshal plain_lib (shape_A [item_json ''test-001'']) = Some [item_record ''test-001'']"
  using records_endpoint_run
  by (simp add: Unmarshal_shape_A dctrack_Unmarshal_shape_A decode_item_json)

end
